theory Spec2Isabelle
  imports Main "HOL-Library.AList"
begin

section \<open>Task types (task/types.ts)\<close>

datatype TaskStatus =
  PENDING | QUEUED | ASSIGNED | RUNNING | COMPLETED | FAILED | CANCELLED | TIMEOUT

text \<open>
  The interface \<open>Task\<close>. Dates are milliseconds since the epoch; an optional field is an
  \<open>option\<close>; the opaque \<open>any\<close> fields (\<open>data\<close>, \<open>result\<close>, \<open>metadata\<close>) are carried as text.
  The field \<open>id\<close> is \<open>task_id\<close> and \<open>type\<close> is \<open>task_type\<close> here.
\<close>

record Task =
  task_id :: string
  task_type :: string
  subtype :: "string option"
  priority :: int
  status :: TaskStatus
  data :: string
  result :: "string option"
  error :: "string option"
  created_at :: int
  updated_at :: int
  assigned_agent :: "string option"
  assigned_at :: "int option"
  started_at :: "int option"
  completed_at :: "int option"
  retry_count :: int
  max_retries :: int
  timeout :: int
  tags :: "string list"
  metadata :: "(string \<times> string) list"

text \<open>\<open>Omit<Task, 'id' | 'created_at' | 'updated_at' | 'retry_count' | 'status'>\<close>, the argument of \<open>enqueue\<close>.\<close>

record TaskInput =
  in_type :: string
  in_subtype :: "string option"
  in_priority :: int
  in_data :: string
  in_result :: "string option"
  in_error :: "string option"
  in_assigned_agent :: "string option"
  in_assigned_at :: "int option"
  in_started_at :: "int option"
  in_completed_at :: "int option"
  in_max_retries :: int
  in_timeout :: int
  in_tags :: "string list"
  in_metadata :: "(string \<times> string) list"

record TaskConfig =
  max_concurrent_tasks :: int
  default_timeout :: int
  cfg_max_retries :: int
  retry_delay :: int
  cleanup_interval :: int
  task_retention_days :: int

section \<open>TaskQueue (task/task-queue.ts)\<close>

text \<open>
  The three stores of the class. \<open>queue\<close> is the array of pending tasks; \<open>processing\<close> and
  \<open>completed\<close> are JavaScript \<open>Map\<close>s, kept as association lists in insertion order:
  \<open>Map.set\<close> is \<open>AList.update\<close> (replace in place, or append), \<open>Map.get\<close> is \<open>map_of\<close>,
  \<open>Map.delete\<close> is \<open>AList.delete\<close>, \<open>Map.size\<close> is \<open>length\<close>.
\<close>

record TaskQueue =
  queue :: "Task list"
  processing :: "(string \<times> Task) list"
  completed :: "(string \<times> Task) list"

definition empty_queue :: TaskQueue where
  "empty_queue = \<lparr>queue = [], processing = [], completed = []\<rparr>"

datatype queue_error = NotFoundInProcessing string

text \<open>
  \<open>this.queue.sort((a, b) => b.priority - a.priority)\<close>: the sort of the array is stable,
  by descending priority.
\<close>

definition sort_by_priority :: "Task list \<Rightarrow> Task list" where
  "sort_by_priority ts = sort_key (\<lambda>t. - priority t) ts"

definition newTask :: "string \<Rightarrow> int \<Rightarrow> TaskInput \<Rightarrow> Task" where
  "newTask tid now inp =
     \<lparr>task_id = tid, task_type = in_type inp, subtype = in_subtype inp,
      priority = in_priority inp, status = PENDING, data = in_data inp,
      result = in_result inp, error = in_error inp, created_at = now, updated_at = now,
      assigned_agent = in_assigned_agent inp, assigned_at = in_assigned_at inp,
      started_at = in_started_at inp, completed_at = in_completed_at inp,
      retry_count = 0, max_retries = in_max_retries inp, timeout = in_timeout inp,
      tags = in_tags inp, metadata = in_metadata inp\<rparr>"

text \<open>\<open>enqueue\<close>; \<open>tid\<close> is the value of \<open>uuidv4()\<close> and \<open>now\<close> the clock.\<close>

definition enqueue :: "string \<Rightarrow> int \<Rightarrow> TaskInput \<Rightarrow> TaskQueue \<Rightarrow> Task \<times> TaskQueue" where
  "enqueue tid now inp q =
     (newTask tid now inp,
      q\<lparr>queue := sort_by_priority (queue q @ [newTask tid now inp])\<rparr>)"

definition dequeue ::
  "TaskConfig \<Rightarrow> string option \<Rightarrow> int \<Rightarrow> TaskQueue \<Rightarrow> Task option \<times> TaskQueue" where
  "dequeue cfg agentId now q =
     (case queue q of
        [] \<Rightarrow> (None, q)
      | t # rest \<Rightarrow>
          if int (length (processing q)) \<ge> max_concurrent_tasks cfg then (None, q)
          else
            let task = t\<lparr>status := ASSIGNED, assigned_agent := agentId,
                         assigned_at := Some now, updated_at := now\<rparr>
            in (Some task,
                q\<lparr>queue := rest,
                  processing := AList.update (task_id task) task (processing q)\<rparr>))"

definition startTask :: "string \<Rightarrow> int \<Rightarrow> TaskQueue \<Rightarrow> queue_error + TaskQueue" where
  "startTask taskId now q =
     (case map_of (processing q) taskId of
        None \<Rightarrow> Inl (NotFoundInProcessing taskId)
      | Some t \<Rightarrow>
          Inr (q\<lparr>processing :=
                   AList.update taskId
                     (t\<lparr>status := RUNNING, started_at := Some now, updated_at := now\<rparr>)
                     (processing q)\<rparr>))"

definition completeTask ::
  "string \<Rightarrow> string option \<Rightarrow> int \<Rightarrow> TaskQueue \<Rightarrow> queue_error + TaskQueue" where
  "completeTask taskId res now q =
     (case map_of (processing q) taskId of
        None \<Rightarrow> Inl (NotFoundInProcessing taskId)
      | Some t \<Rightarrow>
          let task = t\<lparr>status := COMPLETED, result := res,
                       completed_at := Some now, updated_at := now\<rparr>
          in Inr (q\<lparr>processing := AList.delete taskId (processing q),
                     completed := AList.update taskId task (completed q)\<rparr>))"

definition failTask :: "string \<Rightarrow> string \<Rightarrow> int \<Rightarrow> TaskQueue \<Rightarrow> queue_error + TaskQueue" where
  "failTask taskId err now q =
     (case map_of (processing q) taskId of
        None \<Rightarrow> Inl (NotFoundInProcessing taskId)
      | Some t \<Rightarrow>
          let task = t\<lparr>retry_count := retry_count t + 1, error := Some err,
                       updated_at := now\<rparr>
          in if retry_count task \<ge> max_retries task then
               Inr (q\<lparr>processing := AList.delete taskId (processing q),
                      completed :=
                        AList.update taskId
                          (task\<lparr>status := FAILED, completed_at := Some now\<rparr>)
                          (completed q)\<rparr>)
             else
               Inr (q\<lparr>processing := AList.delete taskId (processing q),
                      queue := queue q @
                        [task\<lparr>status := PENDING, assigned_agent := None,
                              assigned_at := None, started_at := None\<rparr>]\<rparr>))"

text \<open>\<open>Array.prototype.findIndex\<close>, with \<open>None\<close> for \<open>-1\<close>.\<close>

fun findIndex :: "('a \<Rightarrow> bool) \<Rightarrow> 'a list \<Rightarrow> nat option" where
  "findIndex P [] = None"
| "findIndex P (x # xs) =
     (if P x then Some 0 else map_option Suc (findIndex P xs))"

text \<open>
  \<open>cancelTask\<close> returns \<open>Promise<void>\<close> and never throws: when the id is in neither
  store the state is returned as it is.
\<close>

definition cancelTask :: "string \<Rightarrow> int \<Rightarrow> TaskQueue \<Rightarrow> TaskQueue" where
  "cancelTask taskId now q =
     (case findIndex (\<lambda>t. task_id t = taskId) (queue q) of
        Some i \<Rightarrow>
          let task = (queue q ! i)\<lparr>status := CANCELLED, updated_at := now\<rparr>
          in q\<lparr>queue := take i (queue q) @ drop (Suc i) (queue q),
               completed := AList.update taskId task (completed q)\<rparr>
      | None \<Rightarrow>
          (case map_of (processing q) taskId of
             Some t \<Rightarrow>
               let task = t\<lparr>status := CANCELLED, updated_at := now,
                            completed_at := Some now\<rparr>
               in q\<lparr>processing := AList.delete taskId (processing q),
                    completed := AList.update taskId task (completed q)\<rparr>
           | None \<Rightarrow> q))"

definition getTask :: "string \<Rightarrow> TaskQueue \<Rightarrow> Task option" where
  "getTask taskId q =
     (case find (\<lambda>t. task_id t = taskId) (queue q) of
        Some t \<Rightarrow> Some t
      | None \<Rightarrow>
          (case map_of (processing q) taskId of
             Some t \<Rightarrow> Some t
           | None \<Rightarrow> map_of (completed q) taskId))"

text \<open>
  \<open>cleanup\<close>: \<open>task.completed_at! < cutoffDate\<close> is false when \<open>completed_at\<close> is
  undefined, so such an entry is never selected.
\<close>

definition expired :: "int \<Rightarrow> Task \<Rightarrow> bool" where
  "expired cutoff t = (case completed_at t of None \<Rightarrow> False | Some c \<Rightarrow> c < cutoff)"

definition cleanup :: "TaskConfig \<Rightarrow> int \<Rightarrow> TaskQueue \<Rightarrow> TaskQueue" where
  "cleanup cfg now q =
     (let cutoff = now - task_retention_days cfg * 24 * 60 * 60 * 1000;
          tasksToRemove = filter (\<lambda>(k, t). expired cutoff t) (completed q)
      in q\<lparr>completed := foldl (\<lambda>m (k, t). AList.delete k m) (completed q) tasksToRemove\<rparr>)"

text \<open>
  \<open>checkTimeouts\<close>: the ids are collected first, then \<open>failTask\<close> is awaited for each; a
  throw of \<open>failTask\<close> ends the loop, leaving the queue as it is at that point.
\<close>

fun failAll :: "string list \<Rightarrow> string \<Rightarrow> int \<Rightarrow> TaskQueue \<Rightarrow> queue_error option \<times> TaskQueue" where
  "failAll [] err now q = (None, q)"
| "failAll (k # ks) err now q =
     (case failTask k err now q of
        Inl e \<Rightarrow> (Some e, q)
      | Inr q' \<Rightarrow> failAll ks err now q')"

definition timedOut :: "int \<Rightarrow> Task \<Rightarrow> bool" where
  "timedOut now t = (case started_at t of None \<Rightarrow> False | Some s \<Rightarrow> now - s > timeout t)"

definition checkTimeouts :: "int \<Rightarrow> TaskQueue \<Rightarrow> queue_error option \<times> TaskQueue" where
  "checkTimeouts now q =
     failAll (map fst (filter (\<lambda>(k, t). timedOut now t) (processing q)))
       ''Task timeout'' now q"

section \<open>Histories of queue operations\<close>

datatype queue_op =
    Enqueue string int TaskInput
  | Dequeue "string option" int
  | StartTask string int
  | CompleteTask string "string option" int
  | FailTask string string int
  | CancelTask string int
  | CheckTimeouts int
  | Cleanup int

text \<open>The queue after one call; a call that throws leaves the queue unchanged.\<close>

fun step :: "TaskConfig \<Rightarrow> queue_op \<Rightarrow> TaskQueue \<Rightarrow> TaskQueue" where
  "step cfg (Enqueue tid now inp) q = snd (enqueue tid now inp q)"
| "step cfg (Dequeue agentId now) q = snd (dequeue cfg agentId now q)"
| "step cfg (StartTask tid now) q = (case startTask tid now q of Inl e \<Rightarrow> q | Inr q' \<Rightarrow> q')"
| "step cfg (CompleteTask tid res now) q =
     (case completeTask tid res now q of Inl e \<Rightarrow> q | Inr q' \<Rightarrow> q')"
| "step cfg (FailTask tid err now) q =
     (case failTask tid err now q of Inl e \<Rightarrow> q | Inr q' \<Rightarrow> q')"
| "step cfg (CancelTask tid now) q = cancelTask tid now q"
| "step cfg (CheckTimeouts now) q = snd (checkTimeouts now q)"
| "step cfg (Cleanup now) q = cleanup cfg now q"

fun exec :: "TaskConfig \<Rightarrow> queue_op list \<Rightarrow> TaskQueue \<Rightarrow> TaskQueue" where
  "exec cfg [] q = q"
| "exec cfg (x # xs) q = exec cfg xs (step cfg x q)"

definition queue_ids :: "TaskQueue \<Rightarrow> string list" where
  "queue_ids q = map task_id (queue q)"

definition processing_ids :: "TaskQueue \<Rightarrow> string list" where
  "processing_ids q = map fst (processing q)"

definition completed_ids :: "TaskQueue \<Rightarrow> string list" where
  "completed_ids q = map fst (completed q)"

text \<open>
  \<open>uuidv4()\<close> returns an id that no task of the queue has: \<open>fresh_ids\<close> says so of every
  \<open>Enqueue\<close> of a history.
\<close>

fun fresh :: "queue_op \<Rightarrow> TaskQueue \<Rightarrow> bool" where
  "fresh (Enqueue tid now inp) q =
     (tid \<notin> set (queue_ids q) \<and> tid \<notin> set (processing_ids q) \<and> tid \<notin> set (completed_ids q))"
| "fresh _ q = True"

fun fresh_ids :: "TaskConfig \<Rightarrow> queue_op list \<Rightarrow> TaskQueue \<Rightarrow> bool" where
  "fresh_ids cfg [] q = True"
| "fresh_ids cfg (x # xs) q = (fresh x q \<and> fresh_ids cfg xs (step cfg x q))"

definition stores_disjoint :: "TaskQueue \<Rightarrow> bool" where
  "stores_disjoint q =
     (set (queue_ids q) \<inter> set (processing_ids q) = {} \<and>
      set (queue_ids q) \<inter> set (completed_ids q) = {} \<and>
      set (processing_ids q) \<inter> set (completed_ids q) = {})"

definition keyed :: "(string \<times> Task) list \<Rightarrow> bool" where
  "keyed m = (\<forall>(k, t) \<in> set m. task_id t = k)"

definition wf_queue :: "TaskQueue \<Rightarrow> bool" where
  "wf_queue q =
     (distinct (queue_ids q) \<and> distinct (processing_ids q) \<and> distinct (completed_ids q) \<and>
      stores_disjoint q \<and> keyed (processing q) \<and> keyed (completed q))"


section \<open>TaskRouter and LoadBalancer (task/task-router.ts)\<close>

text \<open>The route table as \<open>initializeRoutes\<close> fills it.\<close>

definition initializeRoutes :: "(string \<times> string list) list" where
  "initializeRoutes =
     [(''collect_news'', [''collector'']),
      (''process_content'', [''processor'']),
      (''analyze_sentiment'', [''analyzer'']),
      (''detect_risks'', [''analyzer'']),
      (''extract_entities'', [''processor'']),
      (''extract_events'', [''processor'']),
      (''generate_report'', [''analyzer'']),
      (''cleanup_data'', [''processor''])]"

definition routeBySubtype :: "string \<Rightarrow> string \<Rightarrow> string list \<Rightarrow> string list" where
  "routeBySubtype taskType sub capableAgents =
     (if taskType = ''collect_news'' then
        (if sub = ''rss'' then [''collector'']
         else if sub = ''web'' then [''collector'']
         else if sub = ''api'' then [''collector'']
         else capableAgents)
      else if taskType = ''process_content'' then
        (if sub = ''clean'' then [''processor'']
         else if sub = ''extract'' then [''processor'']
         else capableAgents)
      else if taskType = ''analyze_sentiment'' then
        (if sub = ''basic'' then [''analyzer'']
         else if sub = ''advanced'' then [''analyzer'']
         else capableAgents)
      else capableAgents)"

text \<open>\<open>this.routeTable.get(task.type) || []\<close>, refined when \<open>task.subtype\<close> is truthy.\<close>

definition routeTask :: "(string \<times> string list) list \<Rightarrow> Task \<Rightarrow> string list" where
  "routeTask routeTable task =
     (let capableAgents = (case map_of routeTable (task_type task) of
                             None \<Rightarrow> [] | Some agents \<Rightarrow> agents)
      in case subtype task of
           None \<Rightarrow> capableAgents
         | Some sub \<Rightarrow>
             if sub \<noteq> [] then routeBySubtype (task_type task) sub capableAgents
             else capableAgents)"

record LoadBalancer =
  agentLoads :: "string \<rightharpoonup> int"
  agentStatus :: "string \<rightharpoonup> bool"

definition updateAgentLoad :: "string \<Rightarrow> int \<Rightarrow> LoadBalancer \<Rightarrow> LoadBalancer" where
  "updateAgentLoad agentId load lb = lb\<lparr>agentLoads := (agentLoads lb)(agentId \<mapsto> load)\<rparr>"

definition updateAgentStatus :: "string \<Rightarrow> bool \<Rightarrow> LoadBalancer \<Rightarrow> LoadBalancer" where
  "updateAgentStatus agentId isHealthy lb =
     lb\<lparr>agentStatus := (agentStatus lb)(agentId \<mapsto> isHealthy)\<rparr>"

text \<open>\<open>this.agentLoads.get(id) || 0\<close>.\<close>

definition load_of :: "LoadBalancer \<Rightarrow> string \<Rightarrow> int" where
  "load_of lb agentId = (case agentLoads lb agentId of None \<Rightarrow> 0 | Some n \<Rightarrow> n)"

text \<open>The loop of \<open>selectBestAgent\<close> over \<open>healthyAgents[1..]\<close>.\<close>

fun lowest_load :: "LoadBalancer \<Rightarrow> string \<Rightarrow> int \<Rightarrow> string list \<Rightarrow> string" where
  "lowest_load lb bestAgent lowestLoad [] = bestAgent"
| "lowest_load lb bestAgent lowestLoad (a # as) =
     (if load_of lb a < lowestLoad then lowest_load lb a (load_of lb a) as
      else lowest_load lb bestAgent lowestLoad as)"

definition selectBestAgent :: "LoadBalancer \<Rightarrow> string list \<Rightarrow> string option" where
  "selectBestAgent lb candidateAgents =
     (if length candidateAgents = 0 then None
      else
        (case filter (\<lambda>agentId. agentStatus lb agentId \<noteq> Some False) candidateAgents of
           [] \<Rightarrow> None
         | a # as \<Rightarrow> Some (lowest_load lb a (load_of lb a) as)))"

section \<open>TaskScheduler (task/task-scheduler.ts)\<close>

record TaskScheduler =
  taskQueue :: TaskQueue
  routeTable :: "(string \<times> string list) list"
  loadBalancer :: LoadBalancer
  sched_config :: TaskConfig

definition new_scheduler :: "TaskConfig \<Rightarrow> TaskScheduler" where
  "new_scheduler cfg =
     \<lparr>taskQueue = empty_queue, routeTable = initializeRoutes,
      loadBalancer = \<lparr>agentLoads = Map.empty, agentStatus = Map.empty\<rparr>,
      sched_config = cfg\<rparr>"

text \<open>The text of a caught error inside a template string.\<close>

fun error_text :: "queue_error \<Rightarrow> string" where
  "error_text (NotFoundInProcessing tid) = ''Error: Task '' @ tid @ '' not found in processing''"

text \<open>
  \<open>await this.taskQueue.failTask(...)\<close> inside a \<open>try\<close> whose \<open>catch\<close> only logs: a throw
  leaves the queue as it is.
\<close>

definition failTask_logged :: "string \<Rightarrow> string \<Rightarrow> int \<Rightarrow> TaskQueue \<Rightarrow> TaskQueue" where
  "failTask_logged taskId err now q =
     (case failTask taskId err now q of Inl e \<Rightarrow> q | Inr q' \<Rightarrow> q')"

text \<open>
  \<open>assignTaskToAgent\<close>. \<open>simulateTaskExecution\<close> is started without \<open>await\<close> and acts only
  after its timer of at least one second, so it is no part of this call.
\<close>

definition assignTaskToAgent :: "int \<Rightarrow> Task \<Rightarrow> string \<Rightarrow> TaskScheduler \<Rightarrow> TaskScheduler" where
  "assignTaskToAgent now task agentId s =
     (let lb = updateAgentLoad agentId (load_of (loadBalancer s) agentId + 1) (loadBalancer s)
      in case startTask (task_id task) now (taskQueue s) of
           Inr q' \<Rightarrow> s\<lparr>loadBalancer := lb, taskQueue := q'\<rparr>
         | Inl e \<Rightarrow>
             s\<lparr>loadBalancer := lb,
               taskQueue := failTask_logged (task_id task)
                  (''Assignment failed: '' @ error_text e) now (taskQueue s)\<rparr>)"

text \<open>\<open>scheduleNextTask\<close>; the scheduler calls \<open>dequeue()\<close> without an agent id.\<close>

definition scheduleNextTask :: "int \<Rightarrow> TaskScheduler \<Rightarrow> TaskScheduler" where
  "scheduleNextTask now s =
     (case dequeue (sched_config s) None now (taskQueue s) of
        (None, q') \<Rightarrow> s\<lparr>taskQueue := q'\<rparr>
      | (Some task, q') \<Rightarrow>
          let capableAgents = routeTask (routeTable s) task
          in if length capableAgents = 0 then
               s\<lparr>taskQueue :=
                   failTask_logged (task_id task) ''No capable agents available'' now q'\<rparr>
             else
               (case selectBestAgent (loadBalancer s) capableAgents of
                  None \<Rightarrow>
                    s\<lparr>taskQueue :=
                        failTask_logged (task_id task) ''No healthy agents available'' now q'\<rparr>
                | Some selectedAgent \<Rightarrow>
                    assignTaskToAgent now task selectedAgent (s\<lparr>taskQueue := q'\<rparr>)))"

text \<open>\<open>scheduleTasks\<close>: one \<open>scheduleNextTask\<close> for each slot that was free at the start.\<close>

definition scheduleTasks :: "int \<Rightarrow> TaskScheduler \<Rightarrow> TaskScheduler" where
  "scheduleTasks now s =
     (let processingCount = int (length (processing (taskQueue s)));
          max_concurrent = max_concurrent_tasks (sched_config s)
      in if processingCount \<ge> max_concurrent then s
         else ((scheduleNextTask now) ^^ nat (max_concurrent - processingCount)) s)"

text \<open>
  The retry cycle of one task: it is dequeued for an agent, optionally started, and
  \<open>failTask\<close> is called on it.
\<close>

record attempt =
  att_agent :: "string option"
  att_start :: bool
  att_error :: string
  att_time :: int

definition dequeue_and_fail :: "TaskConfig \<Rightarrow> attempt \<Rightarrow> TaskQueue \<Rightarrow> TaskQueue" where
  "dequeue_and_fail cfg a q =
     (case dequeue cfg (att_agent a) (att_time a) q of
        (None, q') \<Rightarrow> q'
      | (Some task, q') \<Rightarrow>
          let q'' = (if att_start a
                     then step cfg (StartTask (task_id task) (att_time a)) q' else q')
          in step cfg (FailTask (task_id task) (att_error a) (att_time a)) q'')"

fun attempts :: "TaskConfig \<Rightarrow> attempt list \<Rightarrow> TaskQueue \<Rightarrow> TaskQueue" where
  "attempts cfg [] q = q"
| "attempts cfg (a # as) q = attempts cfg as (dequeue_and_fail cfg a q)"


section \<open>Numbers inside template strings\<close>

text \<open>The decimal text of an integer, as \<open>`${n}`\<close> prints it.\<close>

definition digit :: "nat \<Rightarrow> char" where
  "digit d = ''0123456789'' ! d"

function show_nat :: "nat \<Rightarrow> string" where
  "show_nat n = (if n < 10 then [digit n] else show_nat (n div 10) @ [digit (n mod 10)])"
  by pat_completeness auto
termination
  by (relation "measure id") auto

declare show_nat.simps [simp del]

definition show_int :: "int \<Rightarrow> string" where
  "show_int i = (if i < 0 then ''-'' @ show_nat (nat (- i)) else show_nat (nat i))"

section \<open>EnhancedCommunicationProtocol\<close>

datatype BreakerState = CLOSED | OPEN | HALF_OPEN

record CircuitBreakerState =
  state :: BreakerState
  failures :: int
  last_failure_time :: int
  success_count :: int

record CircuitBreakerConfig =
  enabled :: bool
  failure_threshold :: int
  recovery_timeout :: int
  monitoring_period :: int

record RateLimitConfig =
  rl_enabled :: bool
  max_requests :: int
  time_window :: int

record AgentMessage =
  msg_from :: "string option"
  msg_to :: "string option"
  msg_type :: "string option"
  action :: "string option"
  msg_data :: string
  timestamp :: "int option"
  message_id :: "string option"

text \<open>
  The state of the class that the message path reads and writes. A handler is known by
  whether it returns (\<open>True\<close>) or throws (\<open>False\<close>) on a message; \<open>dispatched\<close> records the
  messages handed to a handler, oldest first.
\<close>

record Protocol =
  rate_limit :: RateLimitConfig
  circuitBreakerConfig :: CircuitBreakerConfig
  messageHandlers :: "string \<rightharpoonup> (AgentMessage \<Rightarrow> bool)"
  circuitBreaker :: "string \<rightharpoonup> CircuitBreakerState"
  rateLimiter :: "string \<rightharpoonup> int list"
  dispatched :: "AgentMessage list"

datatype http_result = Next | Rejected nat string

subsection \<open>Circuit breaker\<close>

definition initializeCircuitBreakerForAgent :: "string \<Rightarrow> Protocol \<Rightarrow> Protocol" where
  "initializeCircuitBreakerForAgent agentName p =
     (if \<not> enabled (circuitBreakerConfig p) then p
      else p\<lparr>circuitBreaker := (circuitBreaker p)(agentName \<mapsto>
             \<lparr>state = CLOSED, failures = 0, last_failure_time = 0, success_count = 0\<rparr>)\<rparr>)"

text \<open>The two branches of \<open>updateCircuitBreaker\<close> on the breaker object.\<close>

definition on_success :: "CircuitBreakerState \<Rightarrow> CircuitBreakerState" where
  "on_success b =
     (let b1 = b\<lparr>failures := 0, success_count := success_count b + 1\<rparr>
      in if state b1 = HALF_OPEN \<and> success_count b1 \<ge> 3
         then b1\<lparr>state := CLOSED, success_count := 0\<rparr>
         else b1)"

definition on_failure :: "CircuitBreakerConfig \<Rightarrow> int \<Rightarrow> CircuitBreakerState \<Rightarrow> CircuitBreakerState" where
  "on_failure cfg now b =
     (let b1 = b\<lparr>failures := failures b + 1, last_failure_time := now, success_count := 0\<rparr>
      in if failures b1 \<ge> failure_threshold cfg then b1\<lparr>state := OPEN\<rparr> else b1)"

definition updateCircuitBreaker :: "string \<Rightarrow> bool \<Rightarrow> int \<Rightarrow> Protocol \<Rightarrow> Protocol" where
  "updateCircuitBreaker agentName success now p =
     (if \<not> enabled (circuitBreakerConfig p) then p
      else
        (case circuitBreaker p agentName of
           None \<Rightarrow> p
         | Some breaker \<Rightarrow>
             p\<lparr>circuitBreaker := (circuitBreaker p)(agentName \<mapsto>
                 (if success then on_success breaker
                  else on_failure (circuitBreakerConfig p) now breaker))\<rparr>))"

definition isCircuitBreakerOpen :: "string \<Rightarrow> int \<Rightarrow> Protocol \<Rightarrow> bool \<times> Protocol" where
  "isCircuitBreakerOpen agentName now p =
     (if \<not> enabled (circuitBreakerConfig p) then (False, p)
      else
        (case circuitBreaker p agentName of
           None \<Rightarrow> (False, p)
         | Some breaker \<Rightarrow>
             if state breaker = OPEN then
               (if now - last_failure_time breaker > recovery_timeout (circuitBreakerConfig p)
                then (False, p\<lparr>circuitBreaker := (circuitBreaker p)(agentName \<mapsto>
                               breaker\<lparr>state := HALF_OPEN, success_count := 0\<rparr>)\<rparr>)
                else (True, p))
             else (False, p)))"

definition checkCircuitBreakerRecovery :: "int \<Rightarrow> Protocol \<Rightarrow> Protocol" where
  "checkCircuitBreakerRecovery now p =
     p\<lparr>circuitBreaker := (\<lambda>agentName.
         map_option
           (\<lambda>breaker.
              if state breaker = OPEN \<and>
                 now - last_failure_time breaker > recovery_timeout (circuitBreakerConfig p)
              then breaker\<lparr>state := HALF_OPEN, success_count := 0\<rparr>
              else breaker)
           (circuitBreaker p agentName))\<rparr>"

text \<open>Reports to the breaker of one peer, each at its own time.\<close>

fun report_failures :: "string \<Rightarrow> int list \<Rightarrow> Protocol \<Rightarrow> Protocol" where
  "report_failures agentName [] p = p"
| "report_failures agentName (t # ts) p =
     report_failures agentName ts (updateCircuitBreaker agentName False t p)"

fun report_successes :: "string \<Rightarrow> int list \<Rightarrow> Protocol \<Rightarrow> Protocol" where
  "report_successes agentName [] p = p"
| "report_successes agentName (t # ts) p =
     report_successes agentName ts (updateCircuitBreaker agentName True t p)"

subsection \<open>Rate limiter\<close>

text \<open>
  \<open>rateLimitMiddleware\<close>, which \<open>setupMiddleware\<close> installs when \<open>rate_limit.enabled\<close>
  is set; \<open>clientIp\<close> is \<open>req.ip\<close>. A rejected request does not store the filtered list.
\<close>

definition rateLimitMiddleware :: "string \<Rightarrow> int \<Rightarrow> Protocol \<Rightarrow> http_result \<times> Protocol" where
  "rateLimitMiddleware clientIp now p =
     (let windowStart = now - time_window (rate_limit p);
          requests = filter (\<lambda>time. time > windowStart)
                       (case rateLimiter p clientIp of None \<Rightarrow> [] | Some r \<Rightarrow> r)
      in if int (length requests) \<ge> max_requests (rate_limit p)
         then (Rejected 429 ''Rate limit exceeded'', p)
         else (Next, p\<lparr>rateLimiter := (rateLimiter p)(clientIp \<mapsto> requests @ [now])\<rparr>))"

text \<open>Requests of one client at the given times; the answers in order, and the state.\<close>

fun requests_at :: "string \<Rightarrow> int list \<Rightarrow> Protocol \<Rightarrow> http_result list \<times> Protocol" where
  "requests_at clientIp [] p = ([], p)"
| "requests_at clientIp (t # ts) p =
     (case rateLimitMiddleware clientIp t p of
        (r, p') \<Rightarrow> (case requests_at clientIp ts p' of (rs, p'') \<Rightarrow> (r # rs, p'')))"

subsection \<open>Inbound messages\<close>

text \<open>\<open>!message[field]\<close>: a field that is absent, an empty string or the number 0.\<close>

definition missing_str :: "string option \<Rightarrow> bool" where
  "missing_str v = (case v of None \<Rightarrow> True | Some x \<Rightarrow> x = [])"

definition missing_num :: "int option \<Rightarrow> bool" where
  "missing_num v = (case v of None \<Rightarrow> True | Some x \<Rightarrow> x = 0)"

text \<open>The first of the required fields, in the order of \<open>requiredFields\<close>, that is missing.\<close>

definition first_missing :: "AgentMessage \<Rightarrow> string option" where
  "first_missing m =
     (if missing_str (msg_from m) then Some ''from''
      else if missing_str (msg_to m) then Some ''to''
      else if missing_str (msg_type m) then Some ''type''
      else if missing_str (action m) then Some ''action''
      else if missing_num (timestamp m) then Some ''timestamp''
      else if missing_str (message_id m) then Some ''message_id''
      else None)"

definition MESSAGE_TYPES :: "string list" where
  "MESSAGE_TYPES = [''request'', ''response'', ''event'']"

definition str_of :: "string option \<Rightarrow> string" where
  "str_of v = (case v of None \<Rightarrow> ''undefined'' | Some x \<Rightarrow> x)"

definition num_of :: "int option \<Rightarrow> int" where
  "num_of v = (case v of None \<Rightarrow> 0 | Some x \<Rightarrow> x)"

definition validateMessage :: "int \<Rightarrow> AgentMessage \<Rightarrow> http_result" where
  "validateMessage now message =
     (case first_missing message of
        Some field \<Rightarrow> Rejected 400 (''Missing required field: '' @ field)
      | None \<Rightarrow>
          if str_of (msg_type message) \<notin> set MESSAGE_TYPES
          then Rejected 400 (''Invalid message type: '' @ str_of (msg_type message))
          else if \<bar>now - num_of (timestamp message)\<bar> > 300000
          then Rejected 400 ''Message timestamp too old or too new''
          else Next)"

text \<open>The loop of \<open>validateBatchMessages\<close> over the entries, from index \<open>i\<close>.\<close>

fun validate_entries :: "nat \<Rightarrow> AgentMessage list \<Rightarrow> http_result" where
  "validate_entries i [] = Next"
| "validate_entries i (m # ms) =
     (case first_missing m of
        Some field \<Rightarrow>
          Rejected 400 (''Message '' @ show_nat i @ '' missing required field: '' @ field)
      | None \<Rightarrow> validate_entries (Suc i) ms)"

text \<open>The body of a batch request: \<open>None\<close> when it is not an array.\<close>

definition validateBatchMessages :: "AgentMessage list option \<Rightarrow> http_result" where
  "validateBatchMessages body =
     (case body of
        None \<Rightarrow> Rejected 400 ''Messages must be an array''
      | Some messages \<Rightarrow>
          if length messages > 100
          then Rejected 400 ''Batch size cannot exceed 100 messages''
          else validate_entries 0 messages)"

text \<open>
  \<open>handleMessageInternal\<close>: \<open>False\<close> when the handler throws. The text of a handler's
  exception is not modelled; \<open>handleMessage\<close> reports it as \<open>handler error\<close>.
\<close>

definition handleMessageInternal :: "AgentMessage \<Rightarrow> Protocol \<Rightarrow> bool \<times> Protocol" where
  "handleMessageInternal message p =
     (case messageHandlers p (str_of (action message)) of
        Some handler \<Rightarrow> (handler message, p\<lparr>dispatched := dispatched p @ [message]\<rparr>)
      | None \<Rightarrow> (True, p))"

datatype response = Ok | ServerError string

definition handleMessage :: "int \<Rightarrow> AgentMessage \<Rightarrow> Protocol \<Rightarrow> response \<times> Protocol" where
  "handleMessage now message p =
     (case isCircuitBreakerOpen (str_of (msg_from message)) now p of
        (True, p1) \<Rightarrow>
          (ServerError (''Circuit breaker is open for agent: '' @ str_of (msg_from message)),
           updateCircuitBreaker (str_of (msg_from message)) False now p1)
      | (False, p1) \<Rightarrow>
          (case handleMessageInternal message p1 of
             (True, p2) \<Rightarrow> (Ok, p2)
           | (False, p2) \<Rightarrow>
               (ServerError ''handler error'',
                updateCircuitBreaker (str_of (msg_from message)) False now p2)))"

text \<open>One entry of \<open>results\<close> in \<open>handleBatchMessages\<close>: the message id and \<open>success\<close>.\<close>

fun handle_entries ::
  "int \<Rightarrow> AgentMessage list \<Rightarrow> Protocol \<Rightarrow> (string option \<times> bool) list \<times> Protocol" where
  "handle_entries now [] p = ([], p)"
| "handle_entries now (message # ms) p =
     (let (r, p') =
        (case isCircuitBreakerOpen (str_of (msg_from message)) now p of
           (True, p1) \<Rightarrow> ((message_id message, False), p1)
         | (False, p1) \<Rightarrow>
             (case handleMessageInternal message p1 of
                (True, p2) \<Rightarrow>
                  ((message_id message, True),
                   updateCircuitBreaker (str_of (msg_from message)) True now p2)
              | (False, p2) \<Rightarrow>
                  ((message_id message, False),
                   updateCircuitBreaker (str_of (msg_from message)) False now p2)))
      in case handle_entries now ms p' of (rs, p'') \<Rightarrow> (r # rs, p''))"

datatype 'a reply = Refused nat string | Handled 'a

text \<open>The routes \<open>POST /message\<close> and \<open>POST /messages/batch\<close>: validation, then the handler.\<close>

definition post_message :: "int \<Rightarrow> AgentMessage \<Rightarrow> Protocol \<Rightarrow> response reply \<times> Protocol" where
  "post_message now message p =
     (case validateMessage now message of
        Rejected code err \<Rightarrow> (Refused code err, p)
      | Next \<Rightarrow> (case handleMessage now message p of (r, p') \<Rightarrow> (Handled r, p')))"

definition post_messages_batch ::
  "int \<Rightarrow> AgentMessage list option \<Rightarrow> Protocol \<Rightarrow> (string option \<times> bool) list reply \<times> Protocol" where
  "post_messages_batch now body p =
     (case validateBatchMessages body of
        Rejected code err \<Rightarrow> (Refused code err, p)
      | Next \<Rightarrow>
          (case handle_entries now (case body of None \<Rightarrow> [] | Some ms \<Rightarrow> ms) p of
             (rs, p') \<Rightarrow> (Handled rs, p')))"

section \<open>ServiceRegistry\<close>

datatype health = healthy | unhealthy | unknown

record ServiceInstance =
  svc_id :: string
  svc_name :: string
  svc_type :: string
  host :: string
  port :: nat
  svc_status :: health
  capabilities :: "string list"
  svc_metadata :: "(string \<times> string) list"
  last_heartbeat :: int
  registered_at :: int
  health_check_url :: "string option"
  version :: "string option"
  svc_tags :: "string list"

text \<open>\<open>Omit<ServiceInstance, 'id' | 'registered_at' | 'last_heartbeat'>\<close>.\<close>

record ServiceInput =
  si_name :: string
  si_type :: string
  si_host :: string
  si_port :: nat
  si_status :: health
  si_capabilities :: "string list"
  si_metadata :: "(string \<times> string) list"
  si_health_check_url :: "string option"
  si_version :: "string option"
  si_tags :: "string list"

datatype registry_event = service_registered string | service_updated string

record ServiceRegistry =
  services :: "(string \<times> ServiceInstance) list"
  emitted :: "registry_event list"

definition generateServiceId :: "string \<Rightarrow> string \<Rightarrow> nat \<Rightarrow> int \<Rightarrow> string" where
  "generateServiceId name h pt now =
     name @ ''-'' @ h @ ''-'' @ show_nat pt @ ''-'' @ show_int now"

definition register :: "int \<Rightarrow> ServiceInput \<Rightarrow> ServiceRegistry \<Rightarrow> string \<times> ServiceRegistry" where
  "register now service r =
     (let serviceId = generateServiceId (si_name service) (si_host service) (si_port service) now;
          existingService = map_of (services r) serviceId;
          serviceInstance =
            \<lparr>svc_id = serviceId, svc_name = si_name service, svc_type = si_type service,
             host = si_host service, port = si_port service, svc_status = healthy,
             capabilities = si_capabilities service, svc_metadata = si_metadata service,
             last_heartbeat = now, registered_at = now,
             health_check_url = si_health_check_url service, version = si_version service,
             svc_tags = si_tags service\<rparr>
      in (serviceId,
          r\<lparr>services := AList.update serviceId serviceInstance (services r),
            emitted := emitted r @
              [case existingService of
                 Some old \<Rightarrow> service_updated serviceId
               | None \<Rightarrow> service_registered serviceId]\<rparr>))"

definition getService :: "string \<Rightarrow> ServiceRegistry \<Rightarrow> ServiceInstance option" where
  "getService serviceId r = map_of (services r) serviceId"

definition getAllServices :: "ServiceRegistry \<Rightarrow> ServiceInstance list" where
  "getAllServices r = map snd (services r)"


section \<open>Invariants and fixtures\<close>

definition all_tasks :: "TaskQueue \<Rightarrow> Task list" where
  "all_tasks q = queue q @ map snd (processing q) @ map snd (completed q)"

definition is_pending :: "Task \<Rightarrow> bool" where
  "is_pending t = (status t = PENDING \<and> assigned_agent t = None)"

definition in_flight :: "Task \<Rightarrow> bool" where
  "in_flight t = (status t = ASSIGNED \<or> status t = RUNNING)"

definition terminal :: "Task \<Rightarrow> bool" where
  "terminal t = (status t = COMPLETED \<or> status t = FAILED \<or> status t = CANCELLED)"

definition status_inv :: "TaskQueue \<Rightarrow> bool" where
  "status_inv q =
     (list_all is_pending (queue q) \<and>
      list_all in_flight (map snd (processing q)) \<and>
      list_all terminal (map snd (completed q)))"

text \<open>An \<open>enqueue\<close> whose argument carries no \<open>assigned_agent\<close>.\<close>

fun no_agent :: "queue_op \<Rightarrow> bool" where
  "no_agent (Enqueue tid now inp) = (in_assigned_agent inp = None)"
| "no_agent _ = True"

text \<open>A \<open>dequeue\<close> that is given an agent id.\<close>

fun with_agent :: "queue_op \<Rightarrow> bool" where
  "with_agent (Dequeue agentId now) = (agentId \<noteq> None)"
| "with_agent _ = True"

definition agent_recorded :: "Task \<Rightarrow> bool" where
  "agent_recorded t = (assigned_agent t \<noteq> None)"

definition agent_inv :: "TaskQueue \<Rightarrow> bool" where
  "agent_inv q = list_all agent_recorded (map snd (processing q))"

definition test_config :: TaskConfig where
  "test_config =
     \<lparr>max_concurrent_tasks = 5, default_timeout = 30000, cfg_max_retries = 3,
      retry_delay = 1000, cleanup_interval = 60000, task_retention_days = 7\<rparr>"

text \<open>A task of the given type, priority and \<open>max_retries\<close>, with no optional field set.\<close>

definition test_input :: "string \<Rightarrow> int \<Rightarrow> int \<Rightarrow> TaskInput" where
  "test_input ty prio retries =
     \<lparr>in_type = ty, in_subtype = None, in_priority = prio, in_data = ''{}'',
      in_result = None, in_error = None, in_assigned_agent = None, in_assigned_at = None,
      in_started_at = None, in_completed_at = None, in_max_retries = retries,
      in_timeout = 30000, in_tags = [], in_metadata = []\<rparr>"

text \<open>A protocol instance with the default breaker settings and a ceiling of three requests.\<close>

definition test_protocol :: Protocol where
  "test_protocol =
     \<lparr>rate_limit = \<lparr>rl_enabled = True, max_requests = 3, time_window = 60000\<rparr>,
      circuitBreakerConfig =
        \<lparr>enabled = True, failure_threshold = 5, recovery_timeout = 30000,
         monitoring_period = 60000\<rparr>,
      messageHandlers = [''collect_news'' \<mapsto> (\<lambda>m. True)],
      circuitBreaker = Map.empty, rateLimiter = Map.empty, dispatched = []\<rparr>"

text \<open>A well-formed request stamped at the given time.\<close>

definition test_message :: "int \<Rightarrow> AgentMessage" where
  "test_message ts =
     \<lparr>msg_from = Some ''collector'', msg_to = Some ''coordinator'',
      msg_type = Some ''request'', action = Some ''collect_news'', msg_data = ''{}'',
      timestamp = Some ts, message_id = Some ''m1''\<rparr>"

definition test_service :: ServiceInput where
  "test_service =
     \<lparr>si_name = ''collector'', si_type = ''collector'', si_host = ''localhost'',
      si_port = 3001, si_status = unknown, si_capabilities = [''rss''], si_metadata = [],
      si_health_check_url = None, si_version = None, si_tags = []\<rparr>"

definition empty_registry :: ServiceRegistry where
  "empty_registry = \<lparr>services = [], emitted = []\<rparr>"

section \<open>The three stores stay disjoint\<close>

lemma keys_update_img: "fst ` set (AList.update k v m) = insert k (fst ` set m)"
  using dom_update[of k v m] by auto

lemma keys_delete_img: "fst ` set (AList.delete k m) = fst ` set m - {k}"
  using delete_keys[of k m] by (metis list.set_map set_removeAll)

lemma keyed_update: "keyed m \<Longrightarrow> task_id t = k \<Longrightarrow> keyed (AList.update k t m)"
  unfolding keyed_def by (induction m) auto

lemma keyed_delete: "keyed m \<Longrightarrow> keyed (AList.delete k m)"
  unfolding keyed_def by (auto simp: AList.delete_eq)

lemma keyed_map_of: "keyed m \<Longrightarrow> map_of m k = Some t \<Longrightarrow> task_id t = k"
  unfolding keyed_def by (auto dest: map_of_SomeD)

lemma in_keys: "map_of m k = Some t \<Longrightarrow> k \<in> fst ` set m"
  by (metis domI dom_map_of_conv_image_fst)

lemma distinct_ids_sort:
  "distinct (map task_id (sort_by_priority ts)) = distinct (map task_id ts)"
  by (simp add: sort_by_priority_def distinct_map)

lemma set_sort_by_priority: "set (sort_by_priority ts) = set ts"
  by (simp add: sort_by_priority_def)

lemmas ids_defs = queue_ids_def processing_ids_def completed_ids_def
lemmas wf_defs = wf_queue_def stores_disjoint_def ids_defs
lemmas key_simps = keys_update_img keys_delete_img distinct_update distinct_delete
  keyed_update keyed_delete

lemma wf_enqueue:
  "wf_queue q \<Longrightarrow> fresh (Enqueue tid now inp) q \<Longrightarrow> wf_queue (snd (enqueue tid now inp q))"
  by (auto simp: wf_defs enqueue_def distinct_ids_sort set_sort_by_priority newTask_def)

lemma wf_dequeue:
  assumes "wf_queue q"
  shows "wf_queue (snd (dequeue cfg a now q))"
proof (cases "fst (dequeue cfg a now q)")
  case None
  then have "snd (dequeue cfg a now q) = q"
    by (auto simp: dequeue_def Let_def split: list.splits if_splits)
  then show ?thesis using assms by simp
next
  case (Some t')
  then obtain t rest where qq: "queue q = t # rest"
    and q': "snd (dequeue cfg a now q) = q\<lparr>queue := rest,
       processing := AList.update (task_id t) (t\<lparr>status := ASSIGNED, assigned_agent := a,
                         assigned_at := Some now, updated_at := now\<rparr>) (processing q)\<rparr>"
    by (auto simp: dequeue_def Let_def split: list.splits if_splits)
  show ?thesis using assms unfolding q' wf_defs
    by (simp add: key_simps qq)
qed

lemma wf_startTask:
  assumes "wf_queue q" and "startTask tid now q = Inr q'"
  shows "wf_queue q'"
proof -
  from assms(2) obtain t where t: "map_of (processing q) tid = Some t"
    and q': "q' = q\<lparr>processing := AList.update tid
        (t\<lparr>status := RUNNING, started_at := Some now, updated_at := now\<rparr>) (processing q)\<rparr>"
    by (auto simp: startTask_def split: option.splits)
  have k: "tid \<in> fst ` set (processing q)" using t by (rule in_keys)
  have i: "task_id t = tid" using assms(1) t by (auto simp: wf_queue_def dest: keyed_map_of)
  show ?thesis using assms(1) k i unfolding q' wf_defs
    by (simp add: key_simps insert_absorb)
qed

lemma wf_completeTask:
  assumes "wf_queue q" and "completeTask tid r now q = Inr q'"
  shows "wf_queue q'"
proof -
  from assms(2) obtain t where t: "map_of (processing q) tid = Some t"
    and q': "q' = q\<lparr>processing := AList.delete tid (processing q),
        completed := AList.update tid (t\<lparr>status := COMPLETED, result := r,
                       completed_at := Some now, updated_at := now\<rparr>) (completed q)\<rparr>"
    by (auto simp: completeTask_def Let_def split: option.splits)
  have k: "tid \<in> fst ` set (processing q)" using t by (rule in_keys)
  have i: "task_id t = tid" using assms(1) t by (auto simp: wf_queue_def dest: keyed_map_of)
  show ?thesis using assms(1) k i unfolding q' wf_defs
    by (simp add: key_simps) blast
qed

text \<open>The two outcomes of a \<open>failTask\<close> that finds its task.\<close>

lemma failTask_cases:
  assumes "failTask tid e now q = Inr q'"
  obtains t where "map_of (processing q) tid = Some t"
      and "max_retries t \<le> retry_count t + 1"
      and "q' = q\<lparr>processing := AList.delete tid (processing q),
             completed := AList.update tid
               (t\<lparr>retry_count := retry_count t + 1, error := Some e, updated_at := now,
                  status := FAILED, completed_at := Some now\<rparr>) (completed q)\<rparr>"
  | t where "map_of (processing q) tid = Some t"
      and "retry_count t + 1 < max_retries t"
      and "q' = q\<lparr>processing := AList.delete tid (processing q),
             queue := queue q @
               [t\<lparr>retry_count := retry_count t + 1, error := Some e, updated_at := now,
                  status := PENDING, assigned_agent := None, assigned_at := None,
                  started_at := None\<rparr>]\<rparr>"
  using assms by (auto simp: failTask_def Let_def split: option.splits if_splits)

lemma wf_failTask:
  assumes "wf_queue q" and "failTask tid e now q = Inr q'"
  shows "wf_queue q'"
  using assms(2)
proof (cases rule: failTask_cases)
  case (1 t)
  have k: "tid \<in> fst ` set (processing q)" using 1(1) by (rule in_keys)
  have i: "task_id t = tid" using assms(1) 1(1) by (auto simp: wf_queue_def dest: keyed_map_of)
  show ?thesis using assms(1) k i unfolding 1(3) wf_defs
    by (simp add: key_simps) blast
next
  case (2 t)
  have k: "tid \<in> fst ` set (processing q)" using 2(1) by (rule in_keys)
  have i: "task_id t = tid" using assms(1) 2(1) by (auto simp: wf_queue_def dest: keyed_map_of)
  show ?thesis using assms(1) k i unfolding 2(3) wf_defs
    by (simp add: key_simps) blast
qed

lemma findIndex_Some: "findIndex P xs = Some i \<Longrightarrow> i < length xs \<and> P (xs ! i)"
  by (induction xs arbitrary: i) (auto split: if_splits)

lemma split_at: "i < length xs \<Longrightarrow> xs = take i xs @ (xs ! i) # drop (Suc i) xs"
  by (simp add: id_take_nth_drop)

lemma wf_cancelTask:
  assumes "wf_queue q"
  shows "wf_queue (cancelTask tid now q)"
proof (cases "findIndex (\<lambda>t. task_id t = tid) (queue q)")
  case (Some i)
  then have i: "i < length (queue q)" and ti: "task_id (queue q ! i) = tid"
    using findIndex_Some[of "\<lambda>t. task_id t = tid" "queue q" i] by auto
  define pre where "pre = take i (queue q)"
  define post where "post = drop (Suc i) (queue q)"
  have qq: "queue q = pre @ (queue q ! i) # post"
    unfolding pre_def post_def using i by (rule split_at)
  have q': "cancelTask tid now q = q\<lparr>queue := pre @ post,
      completed := AList.update tid
        ((queue q ! i)\<lparr>status := CANCELLED, updated_at := now\<rparr>) (completed q)\<rparr>"
    using Some by (simp add: cancelTask_def Let_def pre_def post_def)
  have d: "distinct (map task_id (pre @ (queue q ! i) # post))"
    and p: "task_id ` set (pre @ (queue q ! i) # post) \<inter> fst ` set (processing q) = {}"
    and c: "task_id ` set (pre @ (queue q ! i) # post) \<inter> fst ` set (completed q) = {}"
    using assms qq unfolding wf_defs by auto
  show ?thesis using assms d p c ti unfolding q' wf_defs
    by (simp add: key_simps) blast
next
  case None
  show ?thesis
  proof (cases "map_of (processing q) tid")
    case N2: None
    then show ?thesis using None assms by (simp add: cancelTask_def)
  next
    case (Some t)
    have q': "cancelTask tid now q = q\<lparr>processing := AList.delete tid (processing q),
        completed := AList.update tid (t\<lparr>status := CANCELLED, updated_at := now,
                            completed_at := Some now\<rparr>) (completed q)\<rparr>"
      using None Some by (simp add: cancelTask_def Let_def)
    have k: "tid \<in> fst ` set (processing q)" using Some by (rule in_keys)
    have i: "task_id t = tid" using assms Some by (auto simp: wf_queue_def dest: keyed_map_of)
    show ?thesis using assms k i unfolding q' wf_defs
      by (simp add: key_simps) blast
  qed
qed

lemma keys_fold_delete:
  "fst ` set (foldl (\<lambda>m (k, t). AList.delete k m) m xs) = fst ` set m - fst ` set xs"
proof (induction xs arbitrary: m)
  case Nil
  show ?case by simp
next
  case (Cons x xs)
  have "fst ` set m - {fst x} - fst ` set xs = fst ` set m - fst ` set (x # xs)" by auto
  then show ?case using Cons[of "AList.delete (fst x) m"]
    by (simp add: keys_delete_img case_prod_beta)
qed

lemma distinct_fold_delete:
  "distinct (map fst m) \<Longrightarrow> distinct (map fst (foldl (\<lambda>m (k, t). AList.delete k m) m xs))"
  by (induction xs arbitrary: m) (auto simp: distinct_delete)

lemma keyed_fold_delete:
  "keyed m \<Longrightarrow> keyed (foldl (\<lambda>m (k, t). AList.delete k m) m xs)"
  by (induction xs arbitrary: m) (auto simp: keyed_delete)

lemma wf_cleanup:
  assumes "wf_queue q"
  shows "wf_queue (cleanup cfg now q)"
  using assms unfolding wf_defs cleanup_def Let_def
  by (simp add: keys_fold_delete distinct_fold_delete keyed_fold_delete) blast

lemma wf_failAll: "wf_queue q \<Longrightarrow> wf_queue (snd (failAll ks e now q))"
  by (induction ks arbitrary: q) (auto split: sum.splits intro: wf_failTask)

lemma wf_step: "wf_queue q \<Longrightarrow> fresh x q \<Longrightarrow> wf_queue (step cfg x q)"
  by (cases x)
    (auto simp: checkTimeouts_def split: sum.splits
      intro: wf_enqueue wf_dequeue wf_startTask wf_completeTask wf_failTask wf_cancelTask
        wf_cleanup wf_failAll)

lemma wf_exec: "wf_queue q \<Longrightarrow> fresh_ids cfg xs q \<Longrightarrow> wf_queue (exec cfg xs q)"
  by (induction xs arbitrary: q) (auto intro: wf_step)

lemma wf_empty: "wf_queue empty_queue"
  by (simp add: wf_defs empty_queue_def keyed_def)

text \<open>
  C10. In every state reached from the empty queue by a sequence of \<open>enqueue\<close>, \<open>dequeue\<close>,
  \<open>startTask\<close>, \<open>completeTask\<close>, \<open>failTask\<close>, \<open>cancelTask\<close>, \<open>checkTimeouts\<close> and \<open>cleanup\<close>
  calls, in which every generated id is new, no task id occurs in two of the pending
  array, the processing map and the completed map.
\<close>

theorem stores_disjoint_reachable:
  "fresh_ids cfg ops empty_queue \<Longrightarrow> stores_disjoint (exec cfg ops empty_queue)"
  using wf_exec[OF wf_empty, of cfg ops] by (simp add: wf_queue_def)


theorem stores_disjoint_reachable_witness:
  "fresh_ids test_config
     [Enqueue ''a'' 1 (test_input ''collect_news'' 2 3),
      Enqueue ''b'' 2 (test_input ''detect_risks'' 3 1),
      Enqueue ''c'' 3 (test_input ''cleanup_data'' 1 2),
      Dequeue None 4, StartTask ''b'' 5, FailTask ''b'' ''boom'' 6,
      Dequeue (Some ''collector'') 7, FailTask ''a'' ''boom'' 8, CheckTimeouts 9,
      Dequeue None 10, Cleanup 11] empty_queue \<and>
   stores_disjoint (exec test_config
     [Enqueue ''a'' 1 (test_input ''collect_news'' 2 3),
      Enqueue ''b'' 2 (test_input ''detect_risks'' 3 1),
      Enqueue ''c'' 3 (test_input ''cleanup_data'' 1 2),
      Dequeue None 4, StartTask ''b'' 5, FailTask ''b'' ''boom'' 6,
      Dequeue (Some ''collector'') 7, FailTask ''a'' ''boom'' 8, CheckTimeouts 9,
      Dequeue None 10, Cleanup 11] empty_queue)"
proof -
  have h: "fresh_ids test_config
     [Enqueue ''a'' 1 (test_input ''collect_news'' 2 3),
      Enqueue ''b'' 2 (test_input ''detect_risks'' 3 1),
      Enqueue ''c'' 3 (test_input ''cleanup_data'' 1 2),
      Dequeue None 4, StartTask ''b'' 5, FailTask ''b'' ''boom'' 6,
      Dequeue (Some ''collector'') 7, FailTask ''a'' ''boom'' 8, CheckTimeouts 9,
      Dequeue None 10, Cleanup 11] empty_queue"
    by code_simp
  from stores_disjoint_reachable[OF h] h show ?thesis by (rule conjI[rotated])
qed


section \<open>Status and \<open>assigned_agent\<close> of the tasks in each store\<close>

lemma la_update:
  "list_all P (map snd m) \<Longrightarrow> P v \<Longrightarrow> list_all P (map snd (AList.update k v m))"
  by (induction m) auto

lemma la_delete: "list_all P (map snd m) \<Longrightarrow> list_all P (map snd (AList.delete k m))"
  by (induction m) auto

lemma la_fold_delete:
  "list_all P (map snd m) \<Longrightarrow>
   list_all P (map snd (foldl (\<lambda>m (k, t). AList.delete k m) m xs))"
  by (induction xs arbitrary: m) (auto simp: la_delete)

lemma la_sort: "list_all P (sort_by_priority ts) = list_all P ts"
  by (simp add: list_all_iff set_sort_by_priority)

lemma la_splice: "list_all P xs \<Longrightarrow> list_all P (take i xs @ drop (Suc i) xs)"
  by (auto simp: list_all_iff dest: in_set_takeD in_set_dropD)

lemmas la_simps = la_update la_delete la_fold_delete la_sort la_splice

lemma st_enqueue:
  "status_inv q \<Longrightarrow> in_assigned_agent inp = None \<Longrightarrow> status_inv (snd (enqueue tid now inp q))"
  by (simp add: status_inv_def enqueue_def la_sort newTask_def is_pending_def)

lemma st_dequeue:
  assumes "status_inv q"
  shows "status_inv (snd (dequeue cfg a now q))"
proof (cases "fst (dequeue cfg a now q)")
  case None
  then have "snd (dequeue cfg a now q) = q"
    by (auto simp: dequeue_def Let_def split: list.splits if_splits)
  then show ?thesis using assms by simp
next
  case (Some t')
  then obtain t rest where qq: "queue q = t # rest"
    and q': "snd (dequeue cfg a now q) = q\<lparr>queue := rest,
       processing := AList.update (task_id t) (t\<lparr>status := ASSIGNED, assigned_agent := a,
                         assigned_at := Some now, updated_at := now\<rparr>) (processing q)\<rparr>"
    by (auto simp: dequeue_def Let_def split: list.splits if_splits)
  show ?thesis using assms unfolding q' status_inv_def
    by (simp add: qq la_simps in_flight_def)
qed

lemma st_startTask:
  assumes "status_inv q" and "startTask tid now q = Inr q'"
  shows "status_inv q'"
proof -
  from assms(2) obtain t where t: "map_of (processing q) tid = Some t"
    and q': "q' = q\<lparr>processing := AList.update tid
        (t\<lparr>status := RUNNING, started_at := Some now, updated_at := now\<rparr>) (processing q)\<rparr>"
    by (auto simp: startTask_def split: option.splits)
  show ?thesis using assms(1) unfolding q' status_inv_def
    by (simp add: la_simps in_flight_def)
qed

lemma st_completeTask:
  assumes "status_inv q" and "completeTask tid r now q = Inr q'"
  shows "status_inv q'"
proof -
  from assms(2) obtain t where t: "map_of (processing q) tid = Some t"
    and q': "q' = q\<lparr>processing := AList.delete tid (processing q),
        completed := AList.update tid (t\<lparr>status := COMPLETED, result := r,
                       completed_at := Some now, updated_at := now\<rparr>) (completed q)\<rparr>"
    by (auto simp: completeTask_def Let_def split: option.splits)
  show ?thesis using assms(1) unfolding q' status_inv_def
    by (simp add: la_simps terminal_def)
qed

lemma st_failTask:
  assumes "status_inv q" and "failTask tid e now q = Inr q'"
  shows "status_inv q'"
  using assms(2)
proof (cases rule: failTask_cases)
  case (1 t)
  show ?thesis using assms(1) unfolding 1(3) status_inv_def
    by (simp add: la_simps terminal_def)
next
  case (2 t)
  show ?thesis using assms(1) unfolding 2(3) status_inv_def
    by (simp add: la_simps is_pending_def)
qed

lemma st_cancelTask:
  assumes "status_inv q"
  shows "status_inv (cancelTask tid now q)"
proof (cases "findIndex (\<lambda>t. task_id t = tid) (queue q)")
  case (Some i)
  have q': "cancelTask tid now q = q\<lparr>queue := take i (queue q) @ drop (Suc i) (queue q),
      completed := AList.update tid
        ((queue q ! i)\<lparr>status := CANCELLED, updated_at := now\<rparr>) (completed q)\<rparr>"
    using Some by (simp add: cancelTask_def Let_def)
  show ?thesis using assms la_splice[of is_pending "queue q" i] unfolding q' status_inv_def
    by (simp add: la_simps terminal_def)
next
  case None
  show ?thesis
  proof (cases "map_of (processing q) tid")
    case N2: None
    then show ?thesis using None assms by (simp add: cancelTask_def)
  next
    case (Some t)
    have q': "cancelTask tid now q = q\<lparr>processing := AList.delete tid (processing q),
        completed := AList.update tid (t\<lparr>status := CANCELLED, updated_at := now,
                            completed_at := Some now\<rparr>) (completed q)\<rparr>"
      using None Some by (simp add: cancelTask_def Let_def)
    show ?thesis using assms unfolding q' status_inv_def
      by (simp add: la_simps terminal_def)
  qed
qed

lemma st_cleanup:
  assumes "status_inv q"
  shows "status_inv (cleanup cfg now q)"
  using assms unfolding status_inv_def cleanup_def Let_def
  by (simp add: la_simps)

lemma st_failAll: "status_inv q \<Longrightarrow> status_inv (snd (failAll ks e now q))"
  by (induction ks arbitrary: q) (auto split: sum.splits intro: st_failTask)

lemma st_step: "status_inv q \<Longrightarrow> no_agent x \<Longrightarrow> status_inv (step cfg x q)"
  by (cases x)
    (auto simp: checkTimeouts_def split: sum.splits
      intro: st_enqueue st_dequeue st_startTask st_completeTask st_failTask st_cancelTask
        st_cleanup st_failAll)

lemma st_exec: "status_inv q \<Longrightarrow> list_all no_agent xs \<Longrightarrow> status_inv (exec cfg xs q)"
  by (induction xs arbitrary: q) (auto intro: st_step)

lemma st_empty: "status_inv empty_queue"
  by (simp add: status_inv_def empty_queue_def)

lemma la_map_of: "list_all P (map snd m) \<Longrightarrow> map_of m k = Some t \<Longrightarrow> P t"
  by (induction m) (auto split: if_splits)

text \<open>While every \<open>dequeue\<close> is given an agent id, each task in processing has one.\<close>

lemma ag_enqueue: "agent_inv q \<Longrightarrow> agent_inv (snd (enqueue tid now inp q))"
  by (simp add: agent_inv_def enqueue_def)

lemma ag_dequeue:
  assumes "agent_inv q" and "a \<noteq> None"
  shows "agent_inv (snd (dequeue cfg a now q))"
proof (cases "fst (dequeue cfg a now q)")
  case None
  then have "snd (dequeue cfg a now q) = q"
    by (auto simp: dequeue_def Let_def split: list.splits if_splits)
  then show ?thesis using assms by simp
next
  case (Some t')
  then obtain t rest where qq: "queue q = t # rest"
    and q': "snd (dequeue cfg a now q) = q\<lparr>queue := rest,
       processing := AList.update (task_id t) (t\<lparr>status := ASSIGNED, assigned_agent := a,
                         assigned_at := Some now, updated_at := now\<rparr>) (processing q)\<rparr>"
    by (auto simp: dequeue_def Let_def split: list.splits if_splits)
  show ?thesis using assms unfolding q' agent_inv_def
    by (simp add: la_simps agent_recorded_def)
qed

lemma ag_startTask:
  assumes "agent_inv q" and "startTask tid now q = Inr q'"
  shows "agent_inv q'"
proof -
  from assms(2) obtain t where t: "map_of (processing q) tid = Some t"
    and q': "q' = q\<lparr>processing := AList.update tid
        (t\<lparr>status := RUNNING, started_at := Some now, updated_at := now\<rparr>) (processing q)\<rparr>"
    by (auto simp: startTask_def split: option.splits)
  have "agent_recorded t" using assms(1) t unfolding agent_inv_def by (rule la_map_of)
  then show ?thesis using assms(1) unfolding q' agent_inv_def
    by (simp add: la_simps agent_recorded_def)
qed

lemma ag_completeTask:
  assumes "agent_inv q" and "completeTask tid r now q = Inr q'"
  shows "agent_inv q'"
  using assms
  by (auto simp: completeTask_def agent_inv_def Let_def la_simps split: option.splits)

lemma ag_failTask:
  assumes "agent_inv q" and "failTask tid e now q = Inr q'"
  shows "agent_inv q'"
  using assms(2)
proof (cases rule: failTask_cases)
  case (1 t)
  show ?thesis using assms(1) unfolding 1(3) agent_inv_def by (simp add: la_simps)
next
  case (2 t)
  show ?thesis using assms(1) unfolding 2(3) agent_inv_def by (simp add: la_simps)
qed

lemma ag_cancelTask:
  assumes "agent_inv q"
  shows "agent_inv (cancelTask tid now q)"
  using assms
  by (simp add: cancelTask_def agent_inv_def Let_def la_simps split: option.splits)

lemma ag_cleanup: "agent_inv q \<Longrightarrow> agent_inv (cleanup cfg now q)"
  by (simp add: cleanup_def agent_inv_def Let_def)

lemma ag_failAll: "agent_inv q \<Longrightarrow> agent_inv (snd (failAll ks e now q))"
  by (induction ks arbitrary: q) (auto split: sum.splits intro: ag_failTask)

lemma ag_step: "agent_inv q \<Longrightarrow> with_agent x \<Longrightarrow> agent_inv (step cfg x q)"
  by (cases x)
    (auto simp: checkTimeouts_def split: sum.splits
      intro: ag_enqueue ag_dequeue ag_startTask ag_completeTask ag_failTask ag_cancelTask
        ag_cleanup ag_failAll)

lemma ag_exec: "agent_inv q \<Longrightarrow> list_all with_agent xs \<Longrightarrow> agent_inv (exec cfg xs q)"
  by (induction xs arbitrary: q) (auto intro: ag_step)

lemma ag_empty: "agent_inv empty_queue"
  by (simp add: agent_inv_def empty_queue_def)

text \<open>
  C5 (as the code has it). In every state reached from the empty queue by the queue's
  operations, where no \<open>enqueue\<close> argument carries an \<open>assigned_agent\<close>: a task whose
  \<open>assigned_agent\<close> is set has status ASSIGNED, RUNNING, COMPLETED, FAILED or CANCELLED,
  so a pending task never has one; and when every \<open>dequeue\<close> of the history was given an
  agent id, every task with status ASSIGNED or RUNNING has its \<open>assigned_agent\<close> set.
\<close>

theorem assigned_agent_and_status:
  assumes "list_all no_agent ops" and "t \<in> set (all_tasks (exec cfg ops empty_queue))"
  shows "(assigned_agent t \<noteq> None \<longrightarrow>
            status t \<in> {ASSIGNED, RUNNING, COMPLETED, FAILED, CANCELLED}) \<and>
         (list_all with_agent ops \<longrightarrow> status t = ASSIGNED \<or> status t = RUNNING \<longrightarrow>
            assigned_agent t \<noteq> None)"
proof (intro conjI impI)
  note st = st_exec[OF st_empty assms(1), of cfg]
  show "status t \<in> {ASSIGNED, RUNNING, COMPLETED, FAILED, CANCELLED}"
    if "assigned_agent t \<noteq> None"
    using st assms(2) that unfolding status_inv_def all_tasks_def
    by (auto simp: list_all_iff is_pending_def in_flight_def terminal_def)
  show "assigned_agent t \<noteq> None"
    if w: "list_all with_agent ops" and s: "status t = ASSIGNED \<or> status t = RUNNING"
  proof -
    have "t \<in> snd ` set (processing (exec cfg ops empty_queue))"
      using st assms(2) s unfolding status_inv_def all_tasks_def
      by (auto simp: list_all_iff is_pending_def terminal_def)
    moreover have "agent_inv (exec cfg ops empty_queue)"
      using ag_empty w by (rule ag_exec)
    ultimately show ?thesis
      unfolding agent_inv_def by (auto simp: list_all_iff agent_recorded_def)
  qed
qed

theorem assigned_agent_and_status_witness:
  "list_all no_agent
     [Enqueue ''t1'' 1000 (test_input ''collect_news'' 2 3), Dequeue (Some ''collector'') 2000] \<and>
   list_all with_agent
     [Enqueue ''t1'' 1000 (test_input ''collect_news'' 2 3), Dequeue (Some ''collector'') 2000] \<and>
   hd (all_tasks (exec test_config
     [Enqueue ''t1'' 1000 (test_input ''collect_news'' 2 3), Dequeue (Some ''collector'') 2000]
     empty_queue))
     \<in> set (all_tasks (exec test_config
     [Enqueue ''t1'' 1000 (test_input ''collect_news'' 2 3), Dequeue (Some ''collector'') 2000]
     empty_queue)) \<and>
   status (hd (all_tasks (exec test_config
     [Enqueue ''t1'' 1000 (test_input ''collect_news'' 2 3), Dequeue (Some ''collector'') 2000]
     empty_queue))) = ASSIGNED \<and>
   assigned_agent (hd (all_tasks (exec test_config
     [Enqueue ''t1'' 1000 (test_input ''collect_news'' 2 3), Dequeue (Some ''collector'') 2000]
     empty_queue))) \<noteq> None \<and>
   status (hd (all_tasks (exec test_config
     [Enqueue ''t1'' 1000 (test_input ''collect_news'' 2 3), Dequeue (Some ''collector'') 2000]
     empty_queue)))
     \<in> {ASSIGNED, RUNNING, COMPLETED, FAILED, CANCELLED}"
proof -
  let ?ops = "[Enqueue ''t1'' 1000 (test_input ''collect_news'' 2 3),
               Dequeue (Some ''collector'') 2000]"
  let ?t = "hd (all_tasks (exec test_config ?ops empty_queue))"
  have a: "list_all no_agent ?ops" by (simp add: test_input_def)
  have w: "list_all with_agent ?ops" by simp
  have b: "?t \<in> set (all_tasks (exec test_config ?ops empty_queue))" by code_simp
  have s: "status ?t = ASSIGNED" by code_simp
  from assigned_agent_and_status[OF a b] a w b s show ?thesis by blast
qed

text \<open>
  C5 as the specification states it fails in both directions: the scheduler's
  \<open>dequeue()\<close> leaves an ASSIGNED task without \<open>assigned_agent\<close>, and \<open>completeTask\<close>
  keeps the \<open>assigned_agent\<close> of a COMPLETED task.
\<close>

theorem assigned_agent_iff_counterexample:
  "map_option status (getTask ''t1'' (exec test_config
     [Enqueue ''t1'' 1000 (test_input ''collect_news'' 2 3), Dequeue None 2000]
     empty_queue)) = Some ASSIGNED \<and>
   map_option assigned_agent (getTask ''t1'' (exec test_config
     [Enqueue ''t1'' 1000 (test_input ''collect_news'' 2 3), Dequeue None 2000]
     empty_queue)) = Some None \<and>
   map_option status (getTask ''t1'' (exec test_config
     [Enqueue ''t1'' 1000 (test_input ''collect_news'' 2 3), Dequeue (Some ''collector'') 2000,
      StartTask ''t1'' 3000, CompleteTask ''t1'' (Some ''done'') 4000]
     empty_queue)) = Some COMPLETED \<and>
   map_option assigned_agent (getTask ''t1'' (exec test_config
     [Enqueue ''t1'' 1000 (test_input ''collect_news'' 2 3), Dequeue (Some ''collector'') 2000,
      StartTask ''t1'' 3000, CompleteTask ''t1'' (Some ''done'') 4000]
     empty_queue)) = Some (Some ''collector'')"
  by code_simp


section \<open>Retries of a failing task\<close>

lemma delete_update_fresh: "k \<notin> fst ` set m \<Longrightarrow> AList.delete k (AList.update k v m) = m"
  by (induction m) auto

lemma map_of_update_same: "map_of (AList.update k v m) k = Some v"
  by (simp add: update_conv')

lemma dequeue_Some:
  assumes "dequeue cfg a now q = (Some task, q')"
  obtains t rest where "queue q = t # rest"
    and "task = t\<lparr>status := ASSIGNED, assigned_agent := a, assigned_at := Some now,
                   updated_at := now\<rparr>"
    and "q' = q\<lparr>queue := rest, processing := AList.update (task_id t) task (processing q)\<rparr>"
    and "int (length (processing q)) < max_concurrent_tasks cfg"
  using assms by (auto simp: dequeue_def Let_def split: list.splits if_splits)

lemma attempts_append: "attempts cfg (xs @ ys) q = attempts cfg ys (attempts cfg xs q)"
  by (induction xs arbitrary: q) auto

lemma cycle_requeue:
  assumes "queue q = [t]" and "task_id t \<notin> fst ` set (processing q)"
    and "int (length (processing q)) < max_concurrent_tasks cfg"
    and "retry_count t + 1 < max_retries t"
  shows "dequeue_and_fail cfg a q =
     q\<lparr>queue := [t\<lparr>retry_count := retry_count t + 1, error := Some (att_error a),
                    updated_at := att_time a, status := PENDING, assigned_agent := None,
                    assigned_at := None, started_at := None\<rparr>]\<rparr>"
  using assms
  by (cases "att_start a")
     (simp_all add: dequeue_and_fail_def dequeue_def startTask_def failTask_def Let_def
       map_of_update_same delete_update_fresh)

lemma cycle_fail:
  assumes "queue q = [t]" and "task_id t \<notin> fst ` set (processing q)"
    and "int (length (processing q)) < max_concurrent_tasks cfg"
    and "max_retries t \<le> retry_count t + 1"
  shows "dequeue_and_fail cfg a q =
     q\<lparr>queue := [],
       completed := AList.update (task_id t)
         (t\<lparr>assigned_agent := att_agent a, assigned_at := Some (att_time a),
            started_at := (if att_start a then Some (att_time a) else started_at t),
            retry_count := retry_count t + 1, error := Some (att_error a),
            updated_at := att_time a, status := FAILED,
            completed_at := Some (att_time a)\<rparr>)
         (completed q)\<rparr>"
  using assms
  by (cases "att_start a")
     (simp_all add: dequeue_and_fail_def dequeue_def startTask_def failTask_def Let_def
       map_of_update_same delete_update_fresh)

lemma attempts_requeue:
  assumes "queue q = [t]" and "task_id t \<notin> fst ` set (processing q)"
    and "int (length (processing q)) < max_concurrent_tasks cfg"
    and "retry_count t + int (length as) < max_retries t"
  shows "\<exists>t'. attempts cfg as q = q\<lparr>queue := [t']\<rparr> \<and> task_id t' = task_id t \<and>
     max_retries t' = max_retries t \<and> retry_count t' = retry_count t + int (length as) \<and>
     (as \<noteq> [] \<longrightarrow> status t' = PENDING \<and> assigned_agent t' = None \<and>
        assigned_at t' = None \<and> started_at t' = None)"
  using assms
proof (induction as arbitrary: q t)
  case Nil
  then show ?case by (intro exI[of _ t]) simp
next
  case (Cons a as)
  define t1 where "t1 = t\<lparr>retry_count := retry_count t + 1, error := Some (att_error a),
                    updated_at := att_time a, status := PENDING, assigned_agent := None,
                    assigned_at := None, started_at := None\<rparr>"
  have r: "retry_count t + 1 < max_retries t" using Cons.prems(4) by simp
  have q1: "dequeue_and_fail cfg a q = q\<lparr>queue := [t1]\<rparr>"
    unfolding t1_def by (rule cycle_requeue[OF Cons.prems(1,2,3) r])
  have "\<exists>t'. attempts cfg as (q\<lparr>queue := [t1]\<rparr>) = (q\<lparr>queue := [t1]\<rparr>)\<lparr>queue := [t']\<rparr> \<and>
     task_id t' = task_id t1 \<and> max_retries t' = max_retries t1 \<and>
     retry_count t' = retry_count t1 + int (length as) \<and>
     (as \<noteq> [] \<longrightarrow> status t' = PENDING \<and> assigned_agent t' = None \<and>
        assigned_at t' = None \<and> started_at t' = None)"
    using Cons.prems by (intro Cons.IH) (simp_all add: t1_def)
  then obtain t' where t': "attempts cfg as (q\<lparr>queue := [t1]\<rparr>) = q\<lparr>queue := [t']\<rparr>"
     "task_id t' = task_id t1" "max_retries t' = max_retries t1"
     "retry_count t' = retry_count t1 + int (length as)"
     "as \<noteq> [] \<longrightarrow> status t' = PENDING \<and> assigned_agent t' = None \<and>
        assigned_at t' = None \<and> started_at t' = None"
    by auto
  have "queue (attempts cfg as (q\<lparr>queue := [t1]\<rparr>)) = queue (q\<lparr>queue := [t']\<rparr>)"
    using t'(1) by simp
  then have e: "as = [] \<Longrightarrow> t' = t1" by simp
  show ?case
    using t' e by (intro exI[of _ t']) (auto simp: q1 t1_def)
qed

text \<open>
  C7. A task with \<open>max_retries = n\<close>, \<open>n \<ge> 1\<close>, alone in the pending array, is dequeued
  and failed \<open>n\<close> times. After each of the first \<open>n - 1\<close> \<open>failTask\<close> calls it is back in
  the pending array with status PENDING, \<open>retry_count\<close> equal to the number of calls so
  far, and \<open>assigned_agent\<close>, \<open>assigned_at\<close> and \<open>started_at\<close> cleared; after the \<open>n\<close>-th
  call it is in the completed store with status FAILED and \<open>retry_count = n\<close>.
\<close>

theorem retry_exhaustion:
  assumes "queue q = [t]" and "retry_count t = 0" and "max_retries t = int n" and "1 \<le> n"
    and "task_id t \<notin> fst ` set (processing q)"
    and "task_id t \<notin> fst ` set (completed q)"
    and "int (length (processing q)) < max_concurrent_tasks cfg"
    and "length as = n"
  shows "(\<forall>k. 0 < k \<and> k < n \<longrightarrow>
           (\<exists>t'. queue (attempts cfg (take k as) q) = [t'] \<and> task_id t' = task_id t \<and>
              status t' = PENDING \<and> retry_count t' = int k \<and> assigned_agent t' = None \<and>
              assigned_at t' = None \<and> started_at t' = None \<and>
              map_of (completed (attempts cfg (take k as) q)) (task_id t) = None)) \<and>
         queue (attempts cfg as q) = [] \<and>
         map_of (processing (attempts cfg as q)) (task_id t) = None \<and>
         (\<exists>t'. map_of (completed (attempts cfg as q)) (task_id t) = Some t' \<and>
            status t' = FAILED \<and> retry_count t' = int n)"
proof (intro conjI allI impI)
  fix k assume k: "0 < k \<and> k < n"
  have l: "length (take k as) = k" using k assms(8) by simp
  have "retry_count t + int (length (take k as)) < max_retries t"
    using k assms(2,3) l by simp
  from attempts_requeue[OF assms(1,5,7) this] l k assms(2,6)
  show "\<exists>t'. queue (attempts cfg (take k as) q) = [t'] \<and> task_id t' = task_id t \<and>
              status t' = PENDING \<and> retry_count t' = int k \<and> assigned_agent t' = None \<and>
              assigned_at t' = None \<and> started_at t' = None \<and>
              map_of (completed (attempts cfg (take k as) q)) (task_id t) = None"
    by (auto simp: map_of_eq_None_iff)
next
  obtain bs b where as: "as = bs @ [b]" using assms(4,8)
    by (metis One_nat_def Suc_le_lessD length_greater_0_conv rev_exhaust)
  have "retry_count t + int (length bs) < max_retries t"
    using as assms(2,3,8) by simp
  from attempts_requeue[OF assms(1,5,7) this]
  obtain t1 where t1: "attempts cfg bs q = q\<lparr>queue := [t1]\<rparr>" "task_id t1 = task_id t"
    "max_retries t1 = max_retries t" "retry_count t1 = retry_count t + int (length bs)"
    by blast
  have m: "max_retries t1 \<le> retry_count t1 + 1" using t1(3,4) as assms(2,3,8) by simp
  have f: "attempts cfg as q = dequeue_and_fail cfg b (q\<lparr>queue := [t1]\<rparr>)"
    by (simp add: as attempts_append t1(1))
  note c = cycle_fail[of "q\<lparr>queue := [t1]\<rparr>" t1 cfg b, simplified, OF _ _ m, unfolded t1(2)]
  have c': "attempts cfg as q = q\<lparr>queue := [],
       completed := AList.update (task_id t)
         (t1\<lparr>assigned_agent := att_agent b, assigned_at := Some (att_time b),
            started_at := (if att_start b then Some (att_time b) else started_at t1),
            retry_count := retry_count t1 + 1, error := Some (att_error b),
            updated_at := att_time b, status := FAILED,
            completed_at := Some (att_time b)\<rparr>)
         (completed q)\<rparr>"
    unfolding f using assms(5,7) by (intro c) simp_all
  show "queue (attempts cfg as q) = []" by (simp add: c')
  show "map_of (processing (attempts cfg as q)) (task_id t) = None"
    using assms(5) by (simp add: c' map_of_eq_None_iff)
  show "\<exists>t'. map_of (completed (attempts cfg as q)) (task_id t) = Some t' \<and>
            status t' = FAILED \<and> retry_count t' = int n"
  proof -
    have "retry_count t1 + 1 = int n" using t1(4) as assms(2,8) by simp
    then show ?thesis by (simp add: c' map_of_update_same)
  qed
qed


theorem retry_exhaustion_witness:
  "queue \<lparr>queue = [newTask ''t1'' 1000 (test_input ''collect_news'' 2 3)],
          processing = [], completed = []\<rparr>
     = [newTask ''t1'' 1000 (test_input ''collect_news'' 2 3)] \<and>
   retry_count (newTask ''t1'' 1000 (test_input ''collect_news'' 2 3)) = 0 \<and>
   max_retries (newTask ''t1'' 1000 (test_input ''collect_news'' 2 3)) = int 3 \<and>
   (1::nat) \<le> 3 \<and>
   length [\<lparr>att_agent = Some ''collector'', att_start = True, att_error = ''boom'',
            att_time = 2000\<rparr>,
           \<lparr>att_agent = None, att_start = False, att_error = ''boom'', att_time = 3000\<rparr>,
           \<lparr>att_agent = Some ''collector'', att_start = True, att_error = ''boom'',
            att_time = 4000\<rparr>] = 3 \<and>
   queue (attempts test_config
          [\<lparr>att_agent = Some ''collector'', att_start = True, att_error = ''boom'',
            att_time = 2000\<rparr>,
           \<lparr>att_agent = None, att_start = False, att_error = ''boom'', att_time = 3000\<rparr>,
           \<lparr>att_agent = Some ''collector'', att_start = True, att_error = ''boom'',
            att_time = 4000\<rparr>]
          \<lparr>queue = [newTask ''t1'' 1000 (test_input ''collect_news'' 2 3)],
           processing = [], completed = []\<rparr>) = []"
proof -
  let ?t = "newTask ''t1'' 1000 (test_input ''collect_news'' 2 3)"
  let ?q = "\<lparr>queue = [?t], processing = [], completed = []\<rparr>"
  let ?as = "[\<lparr>att_agent = Some ''collector'', att_start = True, att_error = ''boom'',
            att_time = 2000\<rparr>,
           \<lparr>att_agent = None, att_start = False, att_error = ''boom'', att_time = 3000\<rparr>,
           \<lparr>att_agent = Some ''collector'', att_start = True, att_error = ''boom'',
            att_time = 4000\<rparr>]"
  have h1: "queue ?q = [?t]" by simp
  have h2: "retry_count ?t = 0" by (simp add: newTask_def)
  have h3: "max_retries ?t = int 3" by (simp add: newTask_def test_input_def)
  have h4: "(1::nat) \<le> 3" by simp
  have h5: "task_id ?t \<notin> fst ` set (processing ?q)" by simp
  have h6: "task_id ?t \<notin> fst ` set (completed ?q)" by simp
  have h7: "int (length (processing ?q)) < max_concurrent_tasks test_config"
    by (simp add: test_config_def)
  have h8: "length ?as = 3" by simp
  from retry_exhaustion[OF h1 h2 h3 h4 h5 h6 h7 h8] h1 h2 h3 h4 h8
  show ?thesis by blast
qed


section \<open>A task that no agent can take\<close>

text \<open>
  C1 (as the code has it). When \<open>scheduleNextTask\<close> dequeues a task for which \<open>routeTask\<close>
  returns no agent, the task goes through \<open>failTask\<close> with the message
  \<open>No capable agents available\<close>: its \<open>retry_count\<close> grows by one; it becomes FAILED and
  moves to the completed store when the new \<open>retry_count\<close> reaches \<open>max_retries\<close>, and
  otherwise it is appended to the pending array with status PENDING.
\<close>

theorem unroutable_task_failTask:
  assumes "dequeue (sched_config s) None now (taskQueue s) = (Some task, q')"
    and "routeTask (routeTable s) task = []"
  shows "(max_retries task \<le> retry_count task + 1 \<longrightarrow>
            taskQueue (scheduleNextTask now s) =
              q'\<lparr>processing := AList.delete (task_id task) (processing q'),
                 completed := AList.update (task_id task)
                   (task\<lparr>retry_count := retry_count task + 1,
                         error := Some ''No capable agents available'', updated_at := now,
                         status := FAILED, completed_at := Some now\<rparr>) (completed q')\<rparr>) \<and>
         (retry_count task + 1 < max_retries task \<longrightarrow>
            taskQueue (scheduleNextTask now s) =
              q'\<lparr>processing := AList.delete (task_id task) (processing q'),
                 queue := queue q' @
                   [task\<lparr>retry_count := retry_count task + 1,
                         error := Some ''No capable agents available'', updated_at := now,
                         status := PENDING, assigned_agent := None, assigned_at := None,
                         started_at := None\<rparr>]\<rparr>)"
proof -
  from assms(1) obtain t rest where "queue (taskQueue s) = t # rest"
    and "task = t\<lparr>status := ASSIGNED, assigned_agent := None, assigned_at := Some now,
                   updated_at := now\<rparr>"
    and q': "q' = (taskQueue s)\<lparr>queue := rest,
        processing := AList.update (task_id t) task (processing (taskQueue s))\<rparr>"
    by (rule dequeue_Some)
  then have m: "map_of (processing q') (task_id task) = Some task"
    by (simp add: map_of_update_same)
  show ?thesis
    using assms m by (simp add: scheduleNextTask_def failTask_logged_def failTask_def Let_def)
qed

theorem unroutable_task_failTask_witness:
  "dequeue (sched_config ((new_scheduler test_config)\<lparr>taskQueue :=
        snd (enqueue ''t1'' 1000 (test_input ''unknown_type'' 2 1) empty_queue)\<rparr>)) None 2000
     (taskQueue ((new_scheduler test_config)\<lparr>taskQueue :=
        snd (enqueue ''t1'' 1000 (test_input ''unknown_type'' 2 1) empty_queue)\<rparr>))
     = (Some ((newTask ''t1'' 1000 (test_input ''unknown_type'' 2 1))
               \<lparr>status := ASSIGNED, assigned_agent := None, assigned_at := Some 2000,
                updated_at := 2000\<rparr>),
        \<lparr>queue = [],
         processing = [(''t1'', (newTask ''t1'' 1000 (test_input ''unknown_type'' 2 1))
               \<lparr>status := ASSIGNED, assigned_agent := None, assigned_at := Some 2000,
                updated_at := 2000\<rparr>)],
         completed = []\<rparr>) \<and>
   routeTask (routeTable ((new_scheduler test_config)\<lparr>taskQueue :=
        snd (enqueue ''t1'' 1000 (test_input ''unknown_type'' 2 1) empty_queue)\<rparr>))
     ((newTask ''t1'' 1000 (test_input ''unknown_type'' 2 1))
               \<lparr>status := ASSIGNED, assigned_agent := None, assigned_at := Some 2000,
                updated_at := 2000\<rparr>) = [] \<and>
   map_option status (getTask ''t1'' (taskQueue (scheduleNextTask 2000
     ((new_scheduler test_config)\<lparr>taskQueue :=
        snd (enqueue ''t1'' 1000 (test_input ''unknown_type'' 2 1) empty_queue)\<rparr>))))
     = Some FAILED"
proof -
  let ?s = "(new_scheduler test_config)\<lparr>taskQueue :=
        snd (enqueue ''t1'' 1000 (test_input ''unknown_type'' 2 1) empty_queue)\<rparr>"
  let ?task = "(newTask ''t1'' 1000 (test_input ''unknown_type'' 2 1))
               \<lparr>status := ASSIGNED, assigned_agent := None, assigned_at := Some 2000,
                updated_at := 2000\<rparr>"
  let ?q = "\<lparr>queue = [], processing = [(''t1'', ?task)], completed = []\<rparr>"
  have h1: "dequeue (sched_config ?s) None 2000 (taskQueue ?s) = (Some ?task, ?q)"
    by (simp add: new_scheduler_def test_config_def enqueue_def dequeue_def empty_queue_def
        sort_by_priority_def newTask_def Let_def)
  have h2: "routeTask (routeTable ?s) ?task = []"
    by (simp add: new_scheduler_def routeTask_def initializeRoutes_def newTask_def
        test_input_def)
  have m: "max_retries ?task \<le> retry_count ?task + 1"
    by (simp add: newTask_def test_input_def)
  from unroutable_task_failTask[OF h1 h2] m
  have "taskQueue (scheduleNextTask 2000 ?s) =
      ?q\<lparr>processing := AList.delete (task_id ?task) (processing ?q),
         completed := AList.update (task_id ?task)
           (?task\<lparr>retry_count := retry_count ?task + 1,
                 error := Some ''No capable agents available'', updated_at := 2000,
                 status := FAILED, completed_at := Some 2000\<rparr>) (completed ?q)\<rparr>"
    by blast
  then have "map_option status (getTask ''t1'' (taskQueue (scheduleNextTask 2000 ?s)))
      = Some FAILED"
    by (simp add: getTask_def newTask_def)
  with h1 h2 show ?thesis by blast
qed

text \<open>
  C1 as the specification states it fails: with \<open>max_retries = 3\<close> the unroutable task is
  PENDING again after the scheduler's step, and its \<open>retry_count\<close> is 1.
\<close>

theorem unroutable_task_counterexample:
  "map_option status (getTask ''t1'' (taskQueue (scheduleNextTask 2000
     ((new_scheduler test_config)\<lparr>taskQueue :=
        snd (enqueue ''t1'' 1000 (test_input ''unknown_type'' 2 3) empty_queue)\<rparr>))))
     = Some PENDING \<and>
   map_option retry_count (getTask ''t1'' (taskQueue (scheduleNextTask 2000
     ((new_scheduler test_config)\<lparr>taskQueue :=
        snd (enqueue ''t1'' 1000 (test_input ''unknown_type'' 2 3) empty_queue)\<rparr>))))
     = Some 1"
  by code_simp

section \<open>Order of the pending array\<close>

text \<open>\<open>enqueue\<close> sorts the whole array, so the task dequeued next has the highest priority.\<close>

lemma sorted_enqueue:
  "sorted (map (\<lambda>t. - priority t) (queue (snd (enqueue tid now inp q))))"
  by (simp add: enqueue_def sort_by_priority_def)

lemma dequeue_after_enqueue:
  assumes "dequeue cfg a now' (snd (enqueue tid now inp q)) = (Some task, q')"
    and "t \<in> set (queue q')"
  shows "priority t \<le> priority task"
proof -
  from assms(1) obtain x rest where qq: "queue (snd (enqueue tid now inp q)) = x # rest"
    and "task = x\<lparr>status := ASSIGNED, assigned_agent := a, assigned_at := Some now',
                   updated_at := now'\<rparr>"
    and "q' = (snd (enqueue tid now inp q))\<lparr>queue := rest, processing := AList.update (task_id x) task (processing (snd (enqueue tid now inp q)))\<rparr>"
    by (rule dequeue_Some)
  then show ?thesis using sorted_enqueue[of tid now inp q] assms(2) by (auto simp: qq)
qed

text \<open>
  C3. \<open>failTask\<close> appends the retried task without sorting. With task A of priority 4 in
  processing and task B of priority 1 pending, failing A leaves the pending array as
  B, A, and the next \<open>dequeue\<close> returns B, of priority 1.
\<close>

theorem priority_order_after_retry:
  "map priority (queue (exec test_config
     [Enqueue ''A'' 1000 (test_input ''detect_risks'' 4 3), Dequeue None 2000,
      Enqueue ''B'' 3000 (test_input ''collect_news'' 1 3), FailTask ''A'' ''boom'' 4000]
     empty_queue)) = [1, 4] \<and>
   map_option task_id (fst (dequeue test_config None 5000 (exec test_config
     [Enqueue ''A'' 1000 (test_input ''detect_risks'' 4 3), Dequeue None 2000,
      Enqueue ''B'' 3000 (test_input ''collect_news'' 1 3), FailTask ''A'' ''boom'' 4000]
     empty_queue))) = Some ''B'' \<and>
   map_option priority (fst (dequeue test_config None 5000 (exec test_config
     [Enqueue ''A'' 1000 (test_input ''detect_risks'' 4 3), Dequeue None 2000,
      Enqueue ''B'' 3000 (test_input ''collect_news'' 1 3), FailTask ''A'' ''boom'' 4000]
     empty_queue))) = Some 1"
  by code_simp

section \<open>Cancelling a task\<close>

text \<open>The three branches of \<open>cancelTask\<close>.\<close>

lemma cancelTask_pending:
  assumes "findIndex (\<lambda>t. task_id t = tid) (queue q) = Some i"
  shows "map_of (completed (cancelTask tid now q)) tid =
     Some ((queue q ! i)\<lparr>status := CANCELLED, updated_at := now\<rparr>)"
  using assms by (simp add: cancelTask_def Let_def map_of_update_same)

lemma cancelTask_processing:
  assumes "findIndex (\<lambda>t. task_id t = tid) (queue q) = None"
    and "map_of (processing q) tid = Some t"
  shows "map_of (completed (cancelTask tid now q)) tid =
     Some (t\<lparr>status := CANCELLED, updated_at := now, completed_at := Some now\<rparr>)"
  using assms by (simp add: cancelTask_def Let_def map_of_update_same)

lemma cancelTask_absent:
  assumes "findIndex (\<lambda>t. task_id t = tid) (queue q) = None"
    and "map_of (processing q) tid = None"
  shows "cancelTask tid now q = q"
  using assms by (simp add: cancelTask_def)

text \<open>
  C6. A task cancelled out of the pending array becomes CANCELLED and moves to the
  completed store, but its \<open>completed_at\<close> stays unset, so \<open>cleanup\<close> never removes it;
  the same task cancelled out of the processing map gets \<open>completed_at = now\<close>.
\<close>

theorem cancel_pending_no_completed_at:
  "map_option status (getTask ''t1'' (cancelTask ''t1'' 5000
     (snd (enqueue ''t1'' 1000 (test_input ''collect_news'' 2 3) empty_queue))))
     = Some CANCELLED \<and>
   map_option completed_at (getTask ''t1'' (cancelTask ''t1'' 5000
     (snd (enqueue ''t1'' 1000 (test_input ''collect_news'' 2 3) empty_queue))))
     = Some None \<and>
   map fst (completed (cleanup test_config 9000000000000 (cancelTask ''t1'' 5000
     (snd (enqueue ''t1'' 1000 (test_input ''collect_news'' 2 3) empty_queue)))))
     = [''t1''] \<and>
   map_option completed_at (getTask ''t1'' (cancelTask ''t1'' 5000 (snd (dequeue test_config None 2000
     (snd (enqueue ''t1'' 1000 (test_input ''collect_news'' 2 3) empty_queue))))))
     = Some (Some 5000)"
  by code_simp



section \<open>Circuit breaker\<close>

lemma report_failures_append:
  "report_failures peer (ts @ us) p = report_failures peer us (report_failures peer ts p)"
  by (induction ts arbitrary: p) auto

lemma updateCircuitBreaker_config [simp]:
  "circuitBreakerConfig (updateCircuitBreaker peer ok now p) = circuitBreakerConfig p"
  by (simp add: updateCircuitBreaker_def split: option.splits)

lemma report_failures_config [simp]:
  "circuitBreakerConfig (report_failures peer ts p) = circuitBreakerConfig p"
  by (induction ts arbitrary: p) auto

lemma report_failures_breaker:
  assumes "enabled (circuitBreakerConfig p)" and "circuitBreaker p peer = Some b"
    and "ts \<noteq> []"
  shows "circuitBreaker (report_failures peer ts p) peer =
     Some (b\<lparr>failures := failures b + int (length ts), last_failure_time := last ts,
             success_count := 0,
             state := (if failure_threshold (circuitBreakerConfig p)
                            \<le> failures b + int (length ts)
                       then OPEN else state b)\<rparr>)"
  using assms(3,1,2)
proof (induction ts rule: rev_nonempty_induct)
  case (single t)
  then show ?case
    by (simp add: updateCircuitBreaker_def on_failure_def Let_def)
next
  case (snoc t ts)
  show ?case
    using snoc.prems snoc.IH[OF snoc.prems]
    by (simp add: report_failures_append updateCircuitBreaker_def on_failure_def Let_def)
qed

text \<open>
  C2. A breaker that is CLOSED with no recorded failure is OPEN after \<open>failure_threshold\<close>
  failure reports in a row; once more than \<open>recovery_timeout\<close> has passed since the last
  of them, \<open>isCircuitBreakerOpen\<close> answers false and leaves the breaker HALF_OPEN; the
  breaker stays HALF_OPEN after one and two success reports and is CLOSED, with
  \<open>success_count = 0\<close>, after the third.
\<close>

theorem breaker_opens_and_recovers:
  assumes "enabled (circuitBreakerConfig p)"
    and "circuitBreaker p peer = Some b" and "state b = CLOSED" and "failures b = 0"
    and "1 \<le> failure_threshold (circuitBreakerConfig p)"
    and "int (length ts) = failure_threshold (circuitBreakerConfig p)"
    and "now - last ts > recovery_timeout (circuitBreakerConfig p)"
  shows "let p1 = report_failures peer ts p;
             p2 = snd (isCircuitBreakerOpen peer now p1)
         in map_option state (circuitBreaker p1 peer) = Some OPEN \<and>
            fst (isCircuitBreakerOpen peer now p1) = False \<and>
            map_option state (circuitBreaker p2 peer) = Some HALF_OPEN \<and>
            map_option state (circuitBreaker (report_successes peer [s1] p2) peer)
              = Some HALF_OPEN \<and>
            map_option state (circuitBreaker (report_successes peer [s1, s2] p2) peer)
              = Some HALF_OPEN \<and>
            map_option state (circuitBreaker (report_successes peer [s1, s2, s3] p2) peer)
              = Some CLOSED \<and>
            map_option success_count
              (circuitBreaker (report_successes peer [s1, s2, s3] p2) peer) = Some 0"
proof -
  have ne: "ts \<noteq> []" using assms(5,6) by auto
  define p1 where "p1 = report_failures peer ts p"
  have b1: "circuitBreaker p1 peer =
     Some (b\<lparr>failures := failures b + int (length ts), last_failure_time := last ts,
             success_count := 0,
             state := (if failure_threshold (circuitBreakerConfig p)
                            \<le> failures b + int (length ts)
                       then OPEN else state b)\<rparr>)"
    unfolding p1_def by (rule report_failures_breaker[OF assms(1,2) ne])
  have c1: "circuitBreakerConfig p1 = circuitBreakerConfig p" by (simp add: p1_def)
  show ?thesis
    unfolding Let_def p1_def[symmetric]
    using assms(1,3,4,6,7) b1 c1
    by (simp add: isCircuitBreakerOpen_def updateCircuitBreaker_def on_success_def Let_def)
qed

theorem breaker_opens_and_recovers_witness:
  "enabled (circuitBreakerConfig (initializeCircuitBreakerForAgent ''collector'' test_protocol)) \<and>
   circuitBreaker (initializeCircuitBreakerForAgent ''collector'' test_protocol) ''collector''
     = Some \<lparr>state = CLOSED, failures = 0, last_failure_time = 0, success_count = 0\<rparr> \<and>
   int (length [1000, 2000, 3000, 4000, 5000 :: int])
     = failure_threshold
         (circuitBreakerConfig (initializeCircuitBreakerForAgent ''collector'' test_protocol)) \<and>
   40000 - last [1000, 2000, 3000, 4000, 5000 :: int]
     > recovery_timeout
         (circuitBreakerConfig (initializeCircuitBreakerForAgent ''collector'' test_protocol)) \<and>
   map_option state (circuitBreaker
     (report_successes ''collector'' [41000, 42000, 43000]
       (snd (isCircuitBreakerOpen ''collector'' 40000
         (report_failures ''collector'' [1000, 2000, 3000, 4000, 5000]
           (initializeCircuitBreakerForAgent ''collector'' test_protocol)))))
     ''collector'') = Some CLOSED"
proof -
  let ?p = "initializeCircuitBreakerForAgent ''collector'' test_protocol"
  let ?b = "\<lparr>state = CLOSED, failures = 0, last_failure_time = 0, success_count = 0\<rparr>"
  let ?ts = "[1000, 2000, 3000, 4000, 5000 :: int]"
  have h1: "enabled (circuitBreakerConfig ?p)"
    by (simp add: initializeCircuitBreakerForAgent_def test_protocol_def)
  have h2: "circuitBreaker ?p ''collector'' = Some ?b"
    by (simp add: initializeCircuitBreakerForAgent_def test_protocol_def)
  have h3: "state ?b = CLOSED" by simp
  have h4: "failures ?b = 0" by simp
  have h5: "1 \<le> failure_threshold (circuitBreakerConfig ?p)"
    by (simp add: initializeCircuitBreakerForAgent_def test_protocol_def)
  have h6: "int (length ?ts) = failure_threshold (circuitBreakerConfig ?p)"
    by (simp add: initializeCircuitBreakerForAgent_def test_protocol_def)
  have h7: "40000 - last ?ts > recovery_timeout (circuitBreakerConfig ?p)"
    by (simp add: initializeCircuitBreakerForAgent_def test_protocol_def)
  from breaker_opens_and_recovers[OF h1 h2 h3 h4 h5 h6 h7, of 41000 42000 43000]
  have "map_option state (circuitBreaker
     (report_successes ''collector'' [41000, 42000, 43000]
       (snd (isCircuitBreakerOpen ''collector'' 40000
         (report_failures ''collector'' ?ts ?p)))) ''collector'') = Some CLOSED"
    unfolding Let_def by blast
  with h1 h2 h6 h7 show ?thesis by blast
qed

section \<open>Rate limiter\<close>

lemma rateLimit_config [simp]:
  "rate_limit (snd (rateLimitMiddleware client now p)) = rate_limit p"
  by (simp add: rateLimitMiddleware_def Let_def)

lemma sorted_le_last: "sorted xs \<Longrightarrow> y \<in> set xs \<Longrightarrow> y \<le> (last xs :: int)"
  by (induction xs) (auto split: if_splits)

text \<open>Requests that all fall in one window are admitted while the ceiling is not reached.\<close>

lemma requests_at_admitted:
  assumes "rateLimiter p client = Some acc"
    and "\<forall>x \<in> set (acc @ ts). \<forall>y \<in> set ts. x > y - time_window (rate_limit p)"
    and "int (length acc + length ts) \<le> max_requests (rate_limit p)"
  shows "fst (requests_at client ts p) = replicate (length ts) Next \<and>
         rateLimiter (snd (requests_at client ts p)) client = Some (acc @ ts) \<and>
         rate_limit (snd (requests_at client ts p)) = rate_limit p"
  using assms
proof (induction ts arbitrary: p acc)
  case Nil
  then show ?case by simp
next
  case (Cons t ts)
  have f: "filter (\<lambda>time. time > t - time_window (rate_limit p)) acc = acc"
    using Cons.prems(2) by (auto simp: filter_id_conv)
  have l: "\<not> max_requests (rate_limit p) \<le> int (length acc)"
    using Cons.prems(3) by simp
  define p' where "p' = p\<lparr>rateLimiter := (rateLimiter p)(client \<mapsto> acc @ [t])\<rparr>"
  have s: "rateLimitMiddleware client t p = (Next, p')"
    using f l Cons.prems(1) by (simp add: rateLimitMiddleware_def Let_def p'_def)
  have "fst (requests_at client ts p') = replicate (length ts) Next \<and>
         rateLimiter (snd (requests_at client ts p')) client = Some ((acc @ [t]) @ ts) \<and>
         rate_limit (snd (requests_at client ts p')) = rate_limit p'"
    using Cons.prems(2,3) by (intro Cons.IH) (auto simp: p'_def)
  then show ?case by (simp add: s split_beta p'_def)
qed

text \<open>
  C8. For a client with no timestamp left in the window of its first request,
  \<open>max_requests\<close> requests at non-decreasing times are all admitted; a further request at
  a time whose window still holds all of them is rejected with status 429 and leaves
  the limiter unchanged; a request at a time whose window no longer holds the oldest of
  them is admitted.
\<close>

theorem rate_limit_window:
  assumes "ts \<noteq> []" and "sorted ts"
    and "int (length ts) = max_requests (rate_limit p)"
    and "filter (\<lambda>x. x > hd ts - time_window (rate_limit p))
           (case rateLimiter p client of None \<Rightarrow> [] | Some r \<Rightarrow> r) = []"
    and "last ts \<le> t" and "t - time_window (rate_limit p) < hd ts"
    and "hd ts \<le> t' - time_window (rate_limit p)"
  shows "fst (requests_at client ts p) = replicate (length ts) Next \<and>
         rateLimitMiddleware client t (snd (requests_at client ts p)) =
           (Rejected 429 ''Rate limit exceeded'', snd (requests_at client ts p)) \<and>
         fst (rateLimitMiddleware client t' (snd (requests_at client ts p))) = Next"
proof -
  obtain t1 us where ts: "ts = t1 # us" using assms(1) by (cases ts) auto
  define p1 where "p1 = p\<lparr>rateLimiter := (rateLimiter p)(client \<mapsto> [t1])\<rparr>"
  define w where "w = time_window (rate_limit p)"
  have pos: "0 < max_requests (rate_limit p)" using assms(1,3) by (cases ts) auto
  have s1: "rateLimitMiddleware client t1 p = (Next, p1)"
    using assms(4) pos by (simp add: rateLimitMiddleware_def Let_def ts p1_def)
  have le: "\<forall>y \<in> set ts. t1 \<le> y \<and> y \<le> last ts"
    using assms(2) sorted_le_last[OF assms(2)] ts by auto
  have win: "\<forall>x \<in> set ts. \<forall>y \<in> set ts. x > y - w"
  proof (intro ballI)
    fix x y assume "x \<in> set ts" "y \<in> set ts"
    then have "t1 \<le> x" "y \<le> last ts" using le by auto
    then show "x > y - w" using assms(5,6) ts by (simp add: w_def)
  qed
  have r: "fst (requests_at client us p1) = replicate (length us) Next \<and>
         rateLimiter (snd (requests_at client us p1)) client = Some ([t1] @ us) \<and>
         rate_limit (snd (requests_at client us p1)) = rate_limit p1"
    using win assms(3) ts by (intro requests_at_admitted) (auto simp: p1_def w_def)
  define pn where "pn = snd (requests_at client ts p)"
  have pn: "rateLimiter pn client = Some ts" "rate_limit pn = rate_limit p"
    and adm: "fst (requests_at client ts p) = replicate (length ts) Next"
    using r by (simp_all add: pn_def ts s1 split_beta p1_def)
  have all_in: "filter (\<lambda>time. time > t - w) ts = ts"
    using le assms(6) ts by (auto simp: filter_id_conv w_def)
  have rej: "rateLimitMiddleware client t pn = (Rejected 429 ''Rate limit exceeded'', pn)"
    using pn assms(3) all_in by (simp add: rateLimitMiddleware_def Let_def w_def)
  have "filter (\<lambda>time. time > t' - w) ts = filter (\<lambda>time. time > t' - w) us"
    using assms(7) by (simp add: ts w_def)
  then have "length (filter (\<lambda>time. time > t' - w) ts) \<le> length us"
    by simp
  then have "\<not> max_requests (rate_limit p) \<le> int (length (filter (\<lambda>time. time > t' - w) ts))"
    using assms(3) ts by simp
  then have again: "fst (rateLimitMiddleware client t' pn) = Next"
    using pn by (simp add: rateLimitMiddleware_def Let_def w_def)
  show ?thesis using adm rej again unfolding pn_def by simp
qed

theorem rate_limit_window_witness:
  "[1000, 2000, 3000 :: int] \<noteq> [] \<and> sorted [1000, 2000, 3000 :: int] \<and>
   int (length [1000, 2000, 3000 :: int]) = max_requests (rate_limit test_protocol) \<and>
   last [1000, 2000, 3000 :: int] \<le> 4000 \<and>
   4000 - time_window (rate_limit test_protocol) < hd [1000, 2000, 3000 :: int] \<and>
   hd [1000, 2000, 3000 :: int] \<le> 61000 - time_window (rate_limit test_protocol) \<and>
   fst (requests_at ''10.0.0.7'' [1000, 2000, 3000] test_protocol) = [Next, Next, Next] \<and>
   fst (rateLimitMiddleware ''10.0.0.7'' 4000
         (snd (requests_at ''10.0.0.7'' [1000, 2000, 3000] test_protocol)))
     = Rejected 429 ''Rate limit exceeded'' \<and>
   fst (rateLimitMiddleware ''10.0.0.7'' 61000
         (snd (requests_at ''10.0.0.7'' [1000, 2000, 3000] test_protocol))) = Next"
proof -
  let ?ts = "[1000, 2000, 3000 :: int]"
  have h1: "?ts \<noteq> []" by simp
  have h2: "sorted ?ts" by simp
  have h3: "int (length ?ts) = max_requests (rate_limit test_protocol)"
    by (simp add: test_protocol_def)
  have h4: "filter (\<lambda>x. x > hd ?ts - time_window (rate_limit test_protocol))
           (case rateLimiter test_protocol ''10.0.0.7'' of None \<Rightarrow> [] | Some r \<Rightarrow> r) = []"
    by (simp add: test_protocol_def)
  have h5: "last ?ts \<le> 4000" by simp
  have h6: "4000 - time_window (rate_limit test_protocol) < hd ?ts"
    by (simp add: test_protocol_def)
  have h7: "hd ?ts \<le> 61000 - time_window (rate_limit test_protocol)"
    by (simp add: test_protocol_def)
  from rate_limit_window[OF h1 h2 h3 h4 h5 h6 h7] h1 h2 h3 h5 h6 h7
  show ?thesis by simp
qed

section \<open>Timestamps of inbound messages\<close>

text \<open>On \<open>POST /message\<close> a message stamped more than five minutes off is refused with 400.\<close>

lemma validateMessage_stale:
  assumes "timestamp m = Some ts" and "\<bar>now - ts\<bar> > 300000"
  shows "\<exists>e. validateMessage now m = Rejected 400 e"
  using assms by (simp add: validateMessage_def num_of_def split: option.splits)

lemma post_message_stale:
  assumes "timestamp m = Some ts" and "\<bar>now - ts\<bar> > 300000"
  shows "\<exists>e. post_message now m p = (Refused 400 e, p)"
  using validateMessage_stale[OF assms] by (auto simp: post_message_def)

text \<open>
  C9. \<open>validateBatchMessages\<close> checks the required fields only. A message stamped
  1000 seconds before receipt is refused with status 400 on \<open>POST /message\<close> and reaches no
  handler; the same message as the one entry of a batch passes validation and is handed
  to its handler.
\<close>

theorem batch_skips_timestamp_check:
  "fst (post_message 2000000 (test_message 1000000) test_protocol)
     = Refused 400 ''Message timestamp too old or too new'' \<and>
   dispatched (snd (post_message 2000000 (test_message 1000000) test_protocol)) = [] \<and>
   validateBatchMessages (Some [test_message 1000000]) = Next \<and>
   fst (post_messages_batch 2000000 (Some [test_message 1000000]) test_protocol)
     = Handled [(Some ''m1'', True)] \<and>
   dispatched (snd (post_messages_batch 2000000 (Some [test_message 1000000]) test_protocol))
     = [test_message 1000000]"
  by (simp add: post_message_def post_messages_batch_def validateMessage_def
      validateBatchMessages_def first_missing_def missing_str_def missing_num_def
      MESSAGE_TYPES_def str_of_def num_of_def test_message_def test_protocol_def
      isCircuitBreakerOpen_def handleMessageInternal_def updateCircuitBreaker_def Let_def)

section \<open>Registering a service twice\<close>

lemma show_nat_digit: "n < 10 \<Longrightarrow> show_nat n = [digit n]"
  by (simp add: show_nat.simps[of n])

lemma show_nat_more: "10 \<le> n \<Longrightarrow> show_nat n = show_nat (n div 10) @ [digit (n mod 10)]"
  by (simp add: show_nat.simps[of n])

lemma id_1000: "generateServiceId ''collector'' ''localhost'' 3001 1000 = ''collector-localhost-3001-1000''"
  by (simp add: generateServiceId_def show_int_def show_nat_digit show_nat_more digit_def)

lemma id_2000: "generateServiceId ''collector'' ''localhost'' 3001 2000 = ''collector-localhost-3001-2000''"
  by (simp add: generateServiceId_def show_int_def show_nat_digit show_nat_more digit_def)

text \<open>\<open>register\<close> touches no entry stored under another id.\<close>

lemma register_keeps_other:
  assumes "k \<noteq> generateServiceId (si_name svc) (si_host svc) (si_port svc) now"
  shows "getService k (snd (register now svc r)) = getService k r"
  using assms by (simp add: register_def getService_def Let_def update_conv')

text \<open>
  C4. \<open>generateServiceId\<close> puts the clock into the id, so a second \<open>register\<close> of the same
  name, host and port at a later time stores a second entry and leaves the first one
  in the registry.
\<close>

theorem reregister_keeps_old_entry:
  "map fst (services (snd (register 2000 test_service
      (snd (register 1000 test_service empty_registry)))))
     = [''collector-localhost-3001-1000'', ''collector-localhost-3001-2000''] \<and>
   map_option registered_at (getService ''collector-localhost-3001-1000''
      (snd (register 2000 test_service (snd (register 1000 test_service empty_registry)))))
     = Some 1000 \<and>
   length (getAllServices
      (snd (register 2000 test_service (snd (register 1000 test_service empty_registry)))))
     = 2"
  by (simp add: register_def test_service_def empty_registry_def getService_def
      getAllServices_def id_1000 id_2000 Let_def)

end
